theory Spec2Isabelle
  imports Complex_Main "HOL-Library.Multiset" "HOL-Library.Char_ord" "HOL-Library.List_Lexorder"
begin

section \<open>Python values, errors and strings\<close>

text \<open>
  The scripts are Python. Exceptions are values of \<open>py_error\<close>; a function that can raise
  returns \<open>py_error + 'a\<close>. A Python \<open>str\<close> is a sequence of code points. For the
  amount and transaction-type strings of the congress fetcher a \<^typ>\<open>char\<close> stands for
  one code point in the range 0..255 (ASCII and Latin-1), and the predicates below are
  the tables of \<open>str.isspace\<close>, \<open>str.isupper\<close> and \<open>str.lower\<close> on that range. Fund
  names are modelled over all code points, further down.
\<close>

datatype py_error = IndexError | KeyError | ValueError | SchemaError

definition code_point :: "char \<Rightarrow> nat" where
  "code_point c = of_char c"

definition py_isspace :: "char \<Rightarrow> bool" where
  "py_isspace c = (let n = code_point c in
     (9 \<le> n \<and> n \<le> 13) \<or> (28 \<le> n \<and> n \<le> 32) \<or> n = 133 \<or> n = 160)"

definition py_isupper :: "char \<Rightarrow> bool" where
  "py_isupper c = (let n = code_point c in
     (65 \<le> n \<and> n \<le> 90) \<or> (192 \<le> n \<and> n \<le> 214) \<or> (216 \<le> n \<and> n \<le> 222))"

definition py_lower_char :: "char \<Rightarrow> char" where
  "py_lower_char c = (if py_isupper c then char_of (code_point c + 32) else c)"

definition py_lower :: "string \<Rightarrow> string" where
  "py_lower s = map py_lower_char s"

text \<open>\<open>s.strip()\<close>: whitespace removed at both ends.\<close>

definition py_strip :: "string \<Rightarrow> string" where
  "py_strip s = rev (dropWhile py_isspace (rev (dropWhile py_isspace s)))"

text \<open>\<open>sub in s\<close> on strings: \<open>sub\<close> occurs as a contiguous substring of \<open>s\<close>.\<close>

fun py_startswith :: "string \<Rightarrow> string \<Rightarrow> bool" where
  "py_startswith s [] = True"
| "py_startswith [] (p # ps) = False"
| "py_startswith (c # cs) (p # ps) = (c = p \<and> py_startswith cs ps)"

fun py_in :: "string \<Rightarrow> string \<Rightarrow> bool" where
  "py_in sub [] = (sub = [])"
| "py_in sub (c # cs) = (py_startswith (c # cs) sub \<or> py_in sub cs)"

section \<open>Slug derivation (fetch\_13f.py)\<close>

text \<open>
  Fund names come from the configuration file and may hold any Unicode text, so a name is
  a list of code points (\<open>ustr\<close>). What \<open>split\<close>, \<open>lower\<close> and \<open>isalnum\<close> do with a code
  point is decided by the Unicode character database of the Python runtime, which is not
  part of the repository: it is the parameter \<open>db\<close> of the model, a record of the
  properties the three methods read.
  \<^item> \<open>isspace\<close>, \<open>isalnum\<close>, \<open>isupper\<close>: the answers of the \<open>str\<close> methods of these names
    on a one-character string;
  \<^item> \<open>tolower_full\<close>: the full lower-case mapping of a code point (one or more code
    points);
  \<^item> \<open>is_cased\<close>, \<open>is_case_ignorable\<close>: the properties Cased and Case\_Ignorable.
\<close>

type_synonym ustr = "nat list"

record ucd =
  isspace :: "nat \<Rightarrow> bool"
  isalnum :: "nat \<Rightarrow> bool"
  isupper :: "nat \<Rightarrow> bool"
  tolower_full :: "nat \<Rightarrow> nat list"
  is_cased :: "nat \<Rightarrow> bool"
  is_case_ignorable :: "nat \<Rightarrow> bool"

text \<open>\<open>s.split()\<close>: the maximal runs of non-whitespace characters, in order.\<close>

function u_split :: "ucd \<Rightarrow> ustr \<Rightarrow> ustr list" where
  "u_split db s = (case dropWhile (isspace db) s of
       [] \<Rightarrow> []
     | c # cs \<Rightarrow> (c # takeWhile (\<lambda>x. \<not> isspace db x) cs)
                 # u_split db (dropWhile (\<lambda>x. \<not> isspace db x) cs))"
  by pat_completeness auto
termination
proof (relation "measure (\<lambda>(db, s). length s)")
  show "wf (measure (\<lambda>(db :: ucd, s :: ustr). length s))" by simp
next
  fix db :: ucd and s :: ustr and c cs
  assume h: "dropWhile (isspace db) s = c # cs"
  have "length (dropWhile (\<lambda>x. \<not> isspace db x) cs) \<le> length cs"
    by (rule length_dropWhile_le)
  also have "length cs < length (dropWhile (isspace db) s)" using h by simp
  also have "\<dots> \<le> length s" by (rule length_dropWhile_le)
  finally show "((db, dropWhile (\<lambda>x. \<not> isspace db x) cs), (db, s))
      \<in> measure (\<lambda>(db, s). length s)" by simp
qed

declare u_split.simps [simp del]

text \<open>
  \<open>s.lower()\<close>. Every code point is replaced by its full lower-case mapping, except the
  capital sigma U+03A3 (931): it becomes the final sigma U+03C2 (962) when, skipping
  case-ignorable code points, a cased code point stands before it and none stands after
  it, and the small sigma U+03C3 (963) otherwise. \<open>lower_from\<close> walks the string with the
  code points already passed, last first.
\<close>

definition final_sigma :: "ucd \<Rightarrow> ustr \<Rightarrow> ustr \<Rightarrow> bool" where
  "final_sigma db passed rest =
     ((case dropWhile (is_case_ignorable db) passed of [] \<Rightarrow> False | c # _ \<Rightarrow> is_cased db c) \<and>
      (case dropWhile (is_case_ignorable db) rest of [] \<Rightarrow> True | c # _ \<Rightarrow> \<not> is_cased db c))"

fun lower_from :: "ucd \<Rightarrow> ustr \<Rightarrow> ustr \<Rightarrow> ustr" where
  "lower_from db passed [] = []"
| "lower_from db passed (c # cs) =
     (if c = 931 then [if final_sigma db passed cs then 962 else 963] else tolower_full db c)
     @ lower_from db (c # passed) cs"

definition u_lower :: "ucd \<Rightarrow> ustr \<Rightarrow> ustr" where
  "u_lower db s = lower_from db [] s"

text \<open>
  \<^verbatim>\<open>
  def _create_slug(self, fund_name):
      first_word = fund_name.split()[0].lower()
      slug = "".join(c for c in first_word if c.isalnum())
      return slug
  \<close>
  \<open>split()[0]\<close> raises IndexError when the name has no token.
\<close>

definition create_slug :: "ucd \<Rightarrow> ustr \<Rightarrow> py_error + ustr" where
  "create_slug db fund_name = (case u_split db fund_name of
       [] \<Rightarrow> Inl IndexError
     | w # _ \<Rightarrow> (let first_word = u_lower db w in Inr (filter (isalnum db) first_word)))"

text \<open>
  An excerpt of the database, for running the model: the rows of the code points 0..255,
  of the three sigmas U+03A3, U+03C2, U+03C3 and of U+03D2 (978, the Greek upsilon with
  hook symbol: alphanumeric, upper case, and without a lower-case mapping). Code points
  without a row in the excerpt are treated as symbols. \<open>ustr\<close> reads a string literal
  as code points.
\<close>

definition latin1_upper :: "nat \<Rightarrow> bool" where
  "latin1_upper n = ((65 \<le> n \<and> n \<le> 90) \<or> (192 \<le> n \<and> n \<le> 214) \<or> (216 \<le> n \<and> n \<le> 222))"

definition latin1_lower :: "nat \<Rightarrow> bool" where
  "latin1_lower n = ((97 \<le> n \<and> n \<le> 122) \<or> n = 170 \<or> n = 181 \<or> n = 186 \<or>
     (223 \<le> n \<and> n \<le> 246) \<or> (248 \<le> n \<and> n \<le> 255))"

definition ucd_excerpt :: ucd where
  "ucd_excerpt =
     \<lparr>isspace = (\<lambda>n. (9 \<le> n \<and> n \<le> 13) \<or> (28 \<le> n \<and> n \<le> 32) \<or> n = 133 \<or> n = 160),
      isalnum = (\<lambda>n. (48 \<le> n \<and> n \<le> 57) \<or> latin1_upper n \<or> latin1_lower n \<or>
                     n = 178 \<or> n = 179 \<or> n = 185 \<or> (188 \<le> n \<and> n \<le> 190) \<or>
                     n = 931 \<or> n = 962 \<or> n = 963 \<or> n = 978),
      isupper = (\<lambda>n. latin1_upper n \<or> n = 931 \<or> n = 978),
      tolower_full = (\<lambda>n. if latin1_upper n then [n + 32] else if n = 931 then [963] else [n]),
      is_cased = (\<lambda>n. latin1_upper n \<or> latin1_lower n \<or>
                      n = 931 \<or> n = 962 \<or> n = 963 \<or> n = 978),
      is_case_ignorable = (\<lambda>n. n = 39 \<or> n = 46 \<or> n = 58 \<or> n = 94 \<or> n = 96 \<or> n = 168 \<or>
                               n = 173 \<or> n = 175 \<or> n = 180 \<or> n = 183 \<or> n = 184)\<rparr>"

definition ustr :: "string \<Rightarrow> ustr" where
  "ustr s = map code_point s"

section \<open>Amount-range parsing (fetch\_congress.py)\<close>

text \<open>
  \<open>float(s)\<close> on a string. \<open>Finite q\<close> stands for the double nearest to the decimal
  value \<open>q\<close> that the literal denotes; which strings parse, and from which digits the value
  is read, is as in CPython: surrounding whitespace is dropped, an underscore is accepted
  between two digits only, then an optional sign is followed by \<open>inf\<close>, \<open>infinity\<close>,
  \<open>nan\<close> (in any case) or by a decimal number with an optional exponent. Any other
  string raises ValueError (\<open>None\<close> here).
\<close>

datatype pyfloat = Finite rat | PosInf | NegInf | NaN

datatype pynum = PInt int | PFloat pyfloat

definition is_digit :: "char \<Rightarrow> bool" where
  "is_digit c = (let n = code_point c in 48 \<le> n \<and> n \<le> 57)"

definition digits_val :: "string \<Rightarrow> nat" where
  "digits_val ds = foldl (\<lambda>n c. 10 * n + (code_point c - 48)) 0 ds"

definition float_isspace :: "char \<Rightarrow> bool" where
  "float_isspace c = (let n = code_point c in
     (9 \<le> n \<and> n \<le> 13) \<or> n = 32 \<or> n = 133 \<or> n = 160)"

fun underscores_ok :: "char \<Rightarrow> string \<Rightarrow> bool" where
  "underscores_ok prev [] = (prev \<noteq> CHR ''_'')"
| "underscores_ok prev (c # cs) =
     ((if c = CHR ''_'' then is_digit prev else if prev = CHR ''_'' then is_digit c else True)
      \<and> underscores_ok c cs)"

definition split_sign :: "string \<Rightarrow> bool \<times> string" where
  "split_sign s = (case s of
       [] \<Rightarrow> (False, [])
     | c # cs \<Rightarrow> if c = CHR ''-'' then (True, cs) else if c = CHR ''+'' then (False, cs)
                else (False, c # cs))"

definition parse_exponent :: "string \<Rightarrow> int option" where
  "parse_exponent r = (case r of
       [] \<Rightarrow> Some 0
     | c # cs \<Rightarrow>
         if c = CHR ''e'' \<or> c = CHR ''E'' then
           (let (neg, ds) = split_sign cs in
            if ds \<noteq> [] \<and> list_all is_digit ds
            then Some (if neg then - int (digits_val ds) else int (digits_val ds))
            else None)
         else None)"

definition scale10 :: "rat \<Rightarrow> int \<Rightarrow> rat" where
  "scale10 m e = (if 0 \<le> e then m * 10 ^ nat e else m / 10 ^ nat (- e))"

definition parse_decimal :: "bool \<Rightarrow> string \<Rightarrow> pyfloat option" where
  "parse_decimal neg t =
     (let ip = takeWhile is_digit t;
          r1 = dropWhile is_digit t;
          (fp, r2) = (case r1 of
               [] \<Rightarrow> ([], [])
             | c # cs \<Rightarrow> if c = CHR ''.'' then (takeWhile is_digit cs, dropWhile is_digit cs)
                        else ([], c # cs))
      in if ip = [] \<and> fp = [] then None
         else (case parse_exponent r2 of
             None \<Rightarrow> None
           | Some e \<Rightarrow>
               (let m = scale10 (of_nat (digits_val (ip @ fp))) (e - int (length fp))
                in Some (Finite (if neg then - m else m)))))"

definition py_float :: "string \<Rightarrow> pyfloat option" where
  "py_float s =
     (let t = rev (dropWhile float_isspace (rev (dropWhile float_isspace s)))
      in if \<not> underscores_ok (CHR 0x00) t then None
         else (let (neg, b) = split_sign (filter (\<lambda>c. c \<noteq> CHR ''_'') t);
                   l = py_lower b
               in if l = ''inf'' \<or> l = ''infinity'' then Some (if neg then NegInf else PosInf)
                  else if l = ''nan'' then Some NaN
                  else parse_decimal neg b))"

definition to_float :: "string \<Rightarrow> py_error + pyfloat" where
  "to_float s = (case py_float s of None \<Rightarrow> Inl ValueError | Some v \<Rightarrow> Inr v)"

text \<open>\<open>s.replace(c, "")\<close> for a one-character \<open>c\<close>, and \<open>s.split(d)\<close> for a one-character
  separator: the pieces between the separators, at least one piece.\<close>

definition py_remove :: "char \<Rightarrow> string \<Rightarrow> string" where
  "py_remove c s = filter (\<lambda>x. x \<noteq> c) s"

fun split_first :: "char \<Rightarrow> string \<Rightarrow> string \<times> string list" where
  "split_first d [] = ([], [])"
| "split_first d (c # cs) =
     (let (p, ps) = split_first d cs in if c = d then ([], p # ps) else (c # p, ps))"

definition py_split_on :: "char \<Rightarrow> string \<Rightarrow> string list" where
  "py_split_on d s = (let (p, ps) = split_first d s in p # ps)"

definition list_get :: "'a list \<Rightarrow> nat \<Rightarrow> py_error + 'a" where
  "list_get xs i = (if i < length xs then Inr (xs ! i) else Inl IndexError)"

text \<open>
  \<^verbatim>\<open>
  def _parse_amount_range(self, amount_str):
      try:
          amount_str = amount_str.replace("$", "").replace(",", "")
          if "-" in amount_str:
              parts = amount_str.split("-")
              min_val = float(parts[0].strip())
              max_val = float(parts[1].strip())
              return (min_val, max_val)
          else:
              val = float(amount_str.strip())
              return (val, val)
      except:
          return (0, 0)
  \<close>
  \<open>parse_amount_try\<close> is the body of the \<open>try\<close>; the bare \<open>except\<close> turns every error
  into \<open>(0, 0)\<close>.
\<close>

definition clean_amount :: "string \<Rightarrow> string" where
  "clean_amount amount_str = py_remove (CHR '','') (py_remove (CHR ''$'') amount_str)"

definition parse_amount_try :: "string \<Rightarrow> py_error + (pynum \<times> pynum)" where
  "parse_amount_try amount_str0 =
     (let amount_str = clean_amount amount_str0 in
      if CHR ''-'' \<in> set amount_str then
        (let parts = py_split_on (CHR ''-'') amount_str in
         case list_get parts 0 of Inl e \<Rightarrow> Inl e | Inr p0 \<Rightarrow>
         (case to_float (py_strip p0) of Inl e \<Rightarrow> Inl e | Inr min_val \<Rightarrow>
         (case list_get parts 1 of Inl e \<Rightarrow> Inl e | Inr p1 \<Rightarrow>
         (case to_float (py_strip p1) of Inl e \<Rightarrow> Inl e | Inr max_val \<Rightarrow>
            Inr (PFloat min_val, PFloat max_val)))))
      else
        (case to_float (py_strip amount_str) of Inl e \<Rightarrow> Inl e | Inr val \<Rightarrow>
           Inr (PFloat val, PFloat val)))"

definition parse_amount_range :: "string \<Rightarrow> pynum \<times> pynum" where
  "parse_amount_range amount_str =
     (case parse_amount_try amount_str of Inl e \<Rightarrow> (PInt 0, PInt 0) | Inr r \<Rightarrow> r)"

section \<open>Transaction-type normalization (fetch\_congress.py)\<close>

text \<open>
  \<^verbatim>\<open>
  def _normalize_transaction_type(self, raw_type):
      raw_type_lower = raw_type.lower()
      if "purchase" in raw_type_lower or "buy" in raw_type_lower:
          return "purchase"
      elif "sale" in raw_type_lower or "sell" in raw_type_lower:
          return "sale"
      elif "exchange" in raw_type_lower:
          return "exchange"
      else:
          return "purchase"
  \<close>
\<close>

definition normalize_transaction_type :: "string \<Rightarrow> string" where
  "normalize_transaction_type raw_type =
     (let raw_type_lower = py_lower raw_type in
      if py_in ''purchase'' raw_type_lower \<or> py_in ''buy'' raw_type_lower then ''purchase''
      else if py_in ''sale'' raw_type_lower \<or> py_in ''sell'' raw_type_lower then ''sale''
      else if py_in ''exchange'' raw_type_lower then ''exchange''
      else ''purchase'')"

section \<open>Dictionaries and metadata (utils.py)\<close>

text \<open>
  JSON-like values. A dict is an association list with the keys in insertion order;
  \<open>d[k] = v\<close> replaces the value of an existing key in place and appends a new key, and
  \<open>d.update(e)\<close> stores the entries of \<open>e\<close> one after the other. A dict has each key once.
\<close>

datatype pyval = VNone | VBool bool | VInt int | VFloat rat | VStr string
  | VDict "(string \<times> pyval) list"

type_synonym pydict = "(string \<times> pyval) list"

fun dict_set :: "string \<Rightarrow> 'v \<Rightarrow> (string \<times> 'v) list \<Rightarrow> (string \<times> 'v) list" where
  "dict_set k v [] = [(k, v)]"
| "dict_set k v ((k', v') # d) = (if k' = k then (k, v) # d else (k', v') # dict_set k v d)"

definition dict_update :: "(string \<times> 'v) list \<Rightarrow> (string \<times> 'v) list \<Rightarrow> (string \<times> 'v) list" where
  "dict_update d e = foldl (\<lambda>acc kv. dict_set (fst kv) (snd kv) acc) d e"

text \<open>
  \<open>datetime.utcnow().isoformat() + "Z"\<close>. The clock is an input: \<open>now\<close> is the value
  \<open>datetime.utcnow()\<close> returns. \<open>isoformat\<close> prints \<open>YYYY-MM-DDTHH:MM:SS\<close> and, when the
  microsecond is not zero, \<open>.ffffff\<close>.
\<close>

record datetime =
  year :: nat
  month :: nat
  day :: nat
  hour :: nat
  minute :: nat
  second :: nat
  microsecond :: nat

fun digits10 :: "nat \<Rightarrow> string" where
  "digits10 n = (if n < 10 then [char_of (48 + n)]
                 else digits10 (n div 10) @ [char_of (48 + n mod 10)])"

definition zero_pad :: "nat \<Rightarrow> nat \<Rightarrow> string" where
  "zero_pad w n = replicate (w - length (digits10 n)) (CHR ''0'') @ digits10 n"

definition isoformat :: "datetime \<Rightarrow> string" where
  "isoformat dt =
     zero_pad 4 (year dt) @ ''-'' @ zero_pad 2 (month dt) @ ''-'' @ zero_pad 2 (day dt) @ ''T'' @
     zero_pad 2 (hour dt) @ '':'' @ zero_pad 2 (minute dt) @ '':'' @ zero_pad 2 (second dt) @
     (if microsecond dt = 0 then [] else ''.'' @ zero_pad 6 (microsecond dt))"

definition get_timestamp :: "datetime \<Rightarrow> string" where
  "get_timestamp now = isoformat now @ ''Z''"

text \<open>
  \<^verbatim>\<open>
  def create_metadata(total_count: int = 0, **kwargs):
      metadata = {
          "last_updated": get_timestamp(),
          "total_count": total_count
      }
      metadata.update(kwargs)
      return metadata
  \<close>
  \<open>kwargs\<close> holds the keyword arguments other than \<open>total_count\<close>; a call that does not
  pass \<open>total_count\<close> is a call with \<open>default_total_count\<close>.
\<close>

definition default_total_count :: int where
  "default_total_count = 0"

definition create_metadata :: "datetime \<Rightarrow> int \<Rightarrow> pydict \<Rightarrow> pydict" where
  "create_metadata now total_count kwargs =
     (let metadata = [(''last_updated'', VStr (get_timestamp now)),
                      (''total_count'', VInt total_count)]
      in dict_update metadata kwargs)"

section \<open>Schema registry and sink writer (utils.py)\<close>

text \<open>
  \<open>jsonschema.validate\<close> is a library call: it returns, raises ValidationError, or raises
  another exception (SchemaError for a schema that is itself malformed), which
  \<open>DataValidator.validate\<close> does not catch. The library is a parameter \<open>jsv\<close> of the model;
  the registry is the dict \<open>self.schemas\<close>.
  \<^verbatim>\<open>
  def validate(self, data, schema_name):
      if schema_name not in self.schemas:
          return False
      try:
          validate(instance=data, schema=self.schemas[schema_name])
          return True
      except jsonschema.exceptions.ValidationError as e:
          return False
  \<close>
\<close>

datatype jsonschema_outcome = Passes | RaisesValidationError | RaisesSchemaError

definition validate ::
  "('s \<Rightarrow> 'd \<Rightarrow> jsonschema_outcome) \<Rightarrow> (string \<rightharpoonup> 's) \<Rightarrow> 'd \<Rightarrow> string \<Rightarrow> py_error + bool" where
  "validate jsv schemas data schema_name =
     (case schemas schema_name of
        None \<Rightarrow> Inr False
      | Some schema \<Rightarrow>
          (case jsv schema data of
             Passes \<Rightarrow> Inr True
           | RaisesValidationError \<Rightarrow> Inr False
           | RaisesSchemaError \<Rightarrow> Inl SchemaError))"

text \<open>
  \<open>DataWriter.write_json(data, output_path)\<close> creates the directories, writes the file and
  returns True; any exception on the way is caught and the result is False. The file
  system is a parameter \<open>io\<close> that says whether the write of a document to a path
  succeeds; the sink is the list of the calls made to the writer, in order.
\<close>

type_synonym 'd sink = "(string \<times> 'd) list"

definition write_json :: "(string \<Rightarrow> 'd \<Rightarrow> bool) \<Rightarrow> 'd \<Rightarrow> string \<Rightarrow> 'd sink \<Rightarrow> bool \<times> 'd sink" where
  "write_json io data output_path sink = (io output_path data, sink @ [(output_path, data)])"

section \<open>The save operations of the fetchers\<close>

text \<open>
  \<^verbatim>\<open>
  def save(self, data, output_path="data/congress/all.json"):
      if not self.validator.validate(data, "congress"):
          return False
      return self.writer.write_json(data, output_path)
  \<close>
  The insiders and macro fetchers have the same \<open>save\<close> with the schema names
  \<open>insiders\<close> and \<open>macro\<close>.
\<close>

definition validated_save ::
  "string \<Rightarrow> ('s \<Rightarrow> 'd \<Rightarrow> jsonschema_outcome) \<Rightarrow> (string \<rightharpoonup> 's) \<Rightarrow> (string \<Rightarrow> 'd \<Rightarrow> bool) \<Rightarrow>
   'd \<Rightarrow> string \<Rightarrow> 'd sink \<Rightarrow> (py_error + bool) \<times> 'd sink" where
  "validated_save schema_name jsv schemas io data output_path sink =
     (case validate jsv schemas data schema_name of
        Inl e \<Rightarrow> (Inl e, sink)
      | Inr ok \<Rightarrow>
          if \<not> ok then (Inr False, sink)
          else (let (w, sink') = write_json io data output_path sink in (Inr w, sink')))"

definition congress_save ::
  "('s \<Rightarrow> 'd \<Rightarrow> jsonschema_outcome) \<Rightarrow> (string \<rightharpoonup> 's) \<Rightarrow> (string \<Rightarrow> 'd \<Rightarrow> bool) \<Rightarrow>
   'd \<Rightarrow> string \<Rightarrow> 'd sink \<Rightarrow> (py_error + bool) \<times> 'd sink" where
  "congress_save = validated_save ''congress''"

definition insiders_save ::
  "('s \<Rightarrow> 'd \<Rightarrow> jsonschema_outcome) \<Rightarrow> (string \<rightharpoonup> 's) \<Rightarrow> (string \<Rightarrow> 'd \<Rightarrow> bool) \<Rightarrow>
   'd \<Rightarrow> string \<Rightarrow> 'd sink \<Rightarrow> (py_error + bool) \<times> 'd sink" where
  "insiders_save = validated_save ''insiders''"

definition macro_save ::
  "('s \<Rightarrow> 'd \<Rightarrow> jsonschema_outcome) \<Rightarrow> (string \<rightharpoonup> 's) \<Rightarrow> (string \<Rightarrow> 'd \<Rightarrow> bool) \<Rightarrow>
   'd \<Rightarrow> string \<Rightarrow> 'd sink \<Rightarrow> (py_error + bool) \<times> 'd sink" where
  "macro_save = validated_save ''macro''"

text \<open>
  \<^verbatim>\<open>
  def save(self, data, output_path="data/flows/latest.json"):
      """Zapisuje dane (bez walidacji - brak schematu)"""
      return self.writer.write_json(data, output_path)
  \<close>
  (the docstring: saves the data, without validation, there is no schema). The sentiment
  fetcher's \<open>save\<close> has the same body. Both fetchers hold a validator and never call it;
  the parameters \<open>jsv\<close> and \<open>schemas\<close> stand for it.
\<close>

definition flows_save ::
  "('s \<Rightarrow> 'd \<Rightarrow> jsonschema_outcome) \<Rightarrow> (string \<rightharpoonup> 's) \<Rightarrow> (string \<Rightarrow> 'd \<Rightarrow> bool) \<Rightarrow>
   'd \<Rightarrow> string \<Rightarrow> 'd sink \<Rightarrow> (py_error + bool) \<times> 'd sink" where
  "flows_save jsv schemas io data output_path sink =
     (let (w, sink') = write_json io data output_path sink in (Inr w, sink'))"

definition sentiment_save ::
  "('s \<Rightarrow> 'd \<Rightarrow> jsonschema_outcome) \<Rightarrow> (string \<rightharpoonup> 's) \<Rightarrow> (string \<Rightarrow> 'd \<Rightarrow> bool) \<Rightarrow>
   'd \<Rightarrow> string \<Rightarrow> 'd sink \<Rightarrow> (py_error + bool) \<times> 'd sink" where
  "sentiment_save jsv schemas io data output_path sink =
     (let (w, sink') = write_json io data output_path sink in (Inr w, sink'))"

text \<open>
  \<^verbatim>\<open>
  def save_all(self, funds_data):
      all_success = True
      for fund_slug, fund_data in funds_data.items():
          output_path = f"data/funds/{fund_slug}.json"
          if not self.validator.validate(fund_data, "fund_13f"):
              all_success = False
              continue
          if not self.writer.write_json(fund_data, output_path):
              all_success = False
      return all_success
  \<close>
  \<open>fund_output_path\<close> is the f-string; \<open>save_all_loop\<close> is the loop over the
  remaining items, with the value of \<open>all_success\<close> so far.
\<close>

definition fund_output_path :: "string \<Rightarrow> string" where
  "fund_output_path fund_slug = ''data/funds/'' @ fund_slug @ ''.json''"

fun save_all_loop ::
  "('s \<Rightarrow> 'd \<Rightarrow> jsonschema_outcome) \<Rightarrow> (string \<rightharpoonup> 's) \<Rightarrow> (string \<Rightarrow> 'd \<Rightarrow> bool) \<Rightarrow>
   (string \<times> 'd) list \<Rightarrow> bool \<Rightarrow> 'd sink \<Rightarrow> (py_error + bool) \<times> 'd sink" where
  "save_all_loop jsv schemas io [] all_success sink = (Inr all_success, sink)"
| "save_all_loop jsv schemas io ((fund_slug, fund_data) # rest) all_success sink =
     (let output_path = fund_output_path fund_slug in
      case validate jsv schemas fund_data ''fund_13f'' of
        Inl e \<Rightarrow> (Inl e, sink)
      | Inr ok \<Rightarrow>
          if \<not> ok then save_all_loop jsv schemas io rest False sink
          else (case write_json io fund_data output_path sink of
                  (w, sink') \<Rightarrow>
                    save_all_loop jsv schemas io rest (if \<not> w then False else all_success) sink'))"

definition save_all ::
  "('s \<Rightarrow> 'd \<Rightarrow> jsonschema_outcome) \<Rightarrow> (string \<rightharpoonup> 's) \<Rightarrow> (string \<Rightarrow> 'd \<Rightarrow> bool) \<Rightarrow>
   (string \<times> 'd) list \<Rightarrow> 'd sink \<Rightarrow> (py_error + bool) \<times> 'd sink" where
  "save_all jsv schemas io funds_data sink = save_all_loop jsv schemas io funds_data True sink"

section \<open>Aggregation and document assembly (fetch\_all)\<close>

text \<open>
  A transaction is a dict. Its \<open>date\<close> entry, when present, is a string (an ISO date);
  \<open>date\<close> is \<open>None\<close> when the dict has no such key, and \<open>entries\<close> are the other
  entries. \<open>x.get("date", "")\<close> is \<open>date_key\<close>, \<open>x["date"]\<close> is \<open>date_item\<close>.
\<close>

record transaction =
  date :: "string option"
  entries :: pydict

definition date_key :: "transaction \<Rightarrow> string" where
  "date_key x = (case date x of None \<Rightarrow> '''' | Some d \<Rightarrow> d)"

definition date_item :: "transaction \<Rightarrow> py_error + string" where
  "date_item x = (case date x of None \<Rightarrow> Inl KeyError | Some d \<Rightarrow> Inr d)"

text \<open>
  \<open>xs.sort(key=k, reverse=True)\<close>: strings compare by code point, lexicographically;
  the sort is stable, and with \<open>reverse=True\<close> elements with equal keys still keep their
  original order (the list is reversed, sorted ascending and stably, and reversed again).
\<close>

definition py_sort_reverse :: "('a \<Rightarrow> string) \<Rightarrow> 'a list \<Rightarrow> 'a list" where
  "py_sort_reverse k xs = rev (sort_key k (rev xs))"

text \<open>
  fetch\_congress.py, \<open>fetch_all\<close>: \<open>house\<close> and \<open>senate\<close> are the lists the two fetch
  calls return.
  \<^verbatim>\<open>
  all_transactions = house_transactions + senate_transactions
  all_transactions.sort(key=lambda x: x.get("date", ""), reverse=True)
  output_data = {
      "metadata": create_metadata(
          total_count=len(all_transactions),
          house_count=len(house_transactions),
          senate_count=len(senate_transactions),
          date_range={
              "from": all_transactions[-1]["date"] if all_transactions else "",
              "to": all_transactions[0]["date"] if all_transactions else ""
          }
      ),
      "transactions": all_transactions
  }
  \<close>
\<close>

record transactions_doc =
  metadata :: pydict
  transactions :: "transaction list"

definition congress_aggregate :: "transaction list \<Rightarrow> transaction list \<Rightarrow> transaction list" where
  "congress_aggregate house_transactions senate_transactions =
     (let all_transactions = house_transactions @ senate_transactions
      in py_sort_reverse date_key all_transactions)"

definition congress_fetch_all ::
  "datetime \<Rightarrow> transaction list \<Rightarrow> transaction list \<Rightarrow> py_error + transactions_doc" where
  "congress_fetch_all now house_transactions senate_transactions =
     (let all_transactions = congress_aggregate house_transactions senate_transactions in
      case (if all_transactions \<noteq> [] then date_item (last all_transactions) else Inr '''') of
        Inl e \<Rightarrow> Inl e
      | Inr date_from \<Rightarrow>
      (case (if all_transactions \<noteq> [] then date_item (hd all_transactions) else Inr '''') of
        Inl e \<Rightarrow> Inl e
      | Inr date_to \<Rightarrow>
          Inr \<lparr>metadata = create_metadata now (int (length all_transactions))
                  [(''house_count'', VInt (int (length house_transactions))),
                   (''senate_count'', VInt (int (length senate_transactions))),
                   (''date_range'', VDict [(''from'', VStr date_from), (''to'', VStr date_to)])],
               transactions = all_transactions\<rparr>))"

text \<open>
  fetch\_insiders.py. \<open>fetch_recent_form4\<close> returns the sample transactions (its
  \<open>try\<close> body computes two dates and calls \<open>_generate_sample_transactions\<close>).
  \<^verbatim>\<open>
  transactions = self.fetch_recent_form4(days_back=30)
  transactions.sort(key=lambda x: x.get("date", ""), reverse=True)
  output_data = {
      "metadata": create_metadata(total_count=len(transactions)),
      "transactions": transactions
  }
  \<close>
  \<open>insiders_assemble\<close> is \<open>fetch_all\<close> from the sort on.
\<close>

definition generate_sample_transactions :: "transaction list" where
  "generate_sample_transactions =
     [\<lparr>date = Some ''2025-11-10'',
       entries = [(''insider_name'', VStr ''John Smith''), (''insider_title'', VStr ''CEO''),
                 (''company'', VStr ''Tech Corp''), (''ticker'', VStr ''TECH''),
                 (''transaction_type'', VStr ''BUY''), (''shares'', VInt 10000),
                 (''price_per_share'', VFloat (15050 / 100)), (''value'', VInt 1505000),
                 (''shares_owned_after'', VInt 250000), (''filing_date'', VStr ''2025-11-12''),
                 (''form_url'',
                  VStr ''https://www.sec.gov/cgi-bin/browse-edgar?action=getcompany&CIK=...'')]\<rparr>,
      \<lparr>date = Some ''2025-11-11'',
       entries = [(''insider_name'', VStr ''Jane Doe''), (''insider_title'', VStr ''CFO''),
                 (''company'', VStr ''Finance Inc''), (''ticker'', VStr ''FIN''),
                 (''transaction_type'', VStr ''SELL''), (''shares'', VInt 5000),
                 (''price_per_share'', VFloat (8525 / 100)), (''value'', VInt 426250),
                 (''shares_owned_after'', VInt 50000), (''filing_date'', VStr ''2025-11-13''),
                 (''form_url'',
                  VStr ''https://www.sec.gov/cgi-bin/browse-edgar?action=getcompany&CIK=...'')]\<rparr>]"

definition fetch_recent_form4 :: "nat \<Rightarrow> transaction list" where
  "fetch_recent_form4 days_back = generate_sample_transactions"

definition insiders_aggregate :: "transaction list \<Rightarrow> transaction list" where
  "insiders_aggregate transactions0 = py_sort_reverse date_key transactions0"

definition insiders_assemble :: "datetime \<Rightarrow> transaction list \<Rightarrow> transactions_doc" where
  "insiders_assemble now transactions0 =
     (let transactions1 = insiders_aggregate transactions0 in
      \<lparr>metadata = create_metadata now (int (length transactions1)) [],
       transactions = transactions1\<rparr>)"

definition insiders_fetch_all :: "datetime \<Rightarrow> transactions_doc" where
  "insiders_fetch_all now = insiders_assemble now (fetch_recent_form4 30)"

text \<open>
  fetch\_flows.py. The two fetch operations return fixed sample lists; \<open>today\<close> is
  \<open>datetime.now().strftime("%Y-%m-%d")\<close>.
  \<^verbatim>\<open>
  etf_flows = self.fetch_etf_flows()
  options_data = self.fetch_options_data()
  output_data = {
      "metadata": create_metadata(
          etf_count=len(etf_flows),
          options_count=len(options_data)
      ),
      "etf_flows": etf_flows,
      "options": options_data
  }
  \<close>
\<close>

definition fetch_etf_flows :: "string \<Rightarrow> pydict list" where
  "fetch_etf_flows today =
     [[(''ticker'', VStr ''SPY''), (''name'', VStr ''SPDR S&P 500 ETF''),
       (''flow_1d'', VInt (- 250000000)), (''flow_5d'', VInt (- 1200000000)),
       (''flow_30d'', VInt 3500000000), (''aum'', VInt 450000000000), (''date'', VStr today)],
      [(''ticker'', VStr ''QQQ''), (''name'', VStr ''Invesco QQQ Trust''),
       (''flow_1d'', VInt 150000000), (''flow_5d'', VInt 800000000),
       (''flow_30d'', VInt 5200000000), (''aum'', VInt 250000000000), (''date'', VStr today)],
      [(''ticker'', VStr ''IWM''), (''name'', VStr ''iShares Russell 2000 ETF''),
       (''flow_1d'', VInt (- 50000000)), (''flow_5d'', VInt (- 200000000)),
       (''flow_30d'', VInt (- 1500000000)), (''aum'', VInt 65000000000), (''date'', VStr today)]]"

definition fetch_options_data :: "string \<Rightarrow> pydict list" where
  "fetch_options_data today =
     [[(''ticker'', VStr ''SPY''), (''total_volume'', VInt 8500000),
       (''call_volume'', VInt 5000000), (''put_volume'', VInt 3500000),
       (''put_call_ratio'', VFloat (70 / 100)), (''total_oi'', VInt 15000000),
       (''avg_volume_30d'', VInt 6500000), (''volume_anomaly'', VBool True),
       (''date'', VStr today)],
      [(''ticker'', VStr ''AAPL''), (''total_volume'', VInt 1200000),
       (''call_volume'', VInt 800000), (''put_volume'', VInt 400000),
       (''put_call_ratio'', VFloat (50 / 100)), (''total_oi'', VInt 2500000),
       (''avg_volume_30d'', VInt 950000), (''volume_anomaly'', VBool True),
       (''date'', VStr today)],
      [(''ticker'', VStr ''TSLA''), (''total_volume'', VInt 2000000),
       (''call_volume'', VInt 1400000), (''put_volume'', VInt 600000),
       (''put_call_ratio'', VFloat (43 / 100)), (''total_oi'', VInt 3200000),
       (''avg_volume_30d'', VInt 1800000), (''volume_anomaly'', VBool False),
       (''date'', VStr today)]]"

record flows_doc =
  flows_metadata :: pydict
  etf_flows :: "pydict list"
  options :: "pydict list"

definition flows_fetch_all :: "datetime \<Rightarrow> string \<Rightarrow> flows_doc" where
  "flows_fetch_all now today =
     (let etf_flows0 = fetch_etf_flows today;
          options_data = fetch_options_data today
      in \<lparr>flows_metadata = create_metadata now default_total_count
              [(''etf_count'', VInt (int (length etf_flows0))),
               (''options_count'', VInt (int (length options_data)))],
          etf_flows = etf_flows0,
          options = options_data\<rparr>)"

section \<open>Synthetic sentiment index (fetch\_sentiment.py)\<close>

text \<open>
  \<open>calculate_fear_greed_index\<close>. The arithmetic is over the rationals: each decimal
  literal is the number it denotes, and the rounding of binary floating point is not
  part of the model. The result keeps the score, the classification and the signal; the
  source also reports the inputs and the values rounded to one decimal.
  \<^verbatim>\<open>
  vix_value = 18.5
  vix_normalized = max(0, min(100, 100 - (vix_value - 10) * 5))
  put_call_ratio = 0.75
  put_call_normalized = max(0, min(100, 100 - (put_call_ratio - 0.5) * 100))
  market_momentum = 0.65
  momentum_normalized = market_momentum * 100
  safe_haven_demand = 0.35
  safe_haven_normalized = (1 - safe_haven_demand) * 100
  weights = {"vix": 0.30, "put_call": 0.25, "momentum": 0.25, "safe_haven": 0.20}
  fear_greed_score = (
      vix_normalized * weights["vix"] +
      put_call_normalized * weights["put_call"] +
      momentum_normalized * weights["momentum"] +
      safe_haven_normalized * weights["safe_haven"]
  )
  if fear_greed_score <= 20:   classification = "Extreme Fear"; signal = "contrarian_buy"
  elif fear_greed_score <= 40: classification = "Fear"; signal = "cautious"
  elif fear_greed_score <= 60: classification = "Neutral"; signal = "neutral"
  elif fear_greed_score <= 80: classification = "Greed"; signal = "cautious"
  else:                        classification = "Extreme Greed"; signal = "contrarian_sell"
  \<close>
\<close>

record weight_table =
  vix :: rat
  put_call :: rat
  momentum :: rat
  safe_haven :: rat

definition weights :: weight_table where
  "weights = \<lparr>vix = 30 / 100, put_call = 25 / 100, momentum = 25 / 100,
              safe_haven = 20 / 100\<rparr>"

definition fear_greed_score :: "rat \<Rightarrow> rat \<Rightarrow> rat \<Rightarrow> rat \<Rightarrow> rat" where
  "fear_greed_score vix_normalized put_call_normalized momentum_normalized safe_haven_normalized =
     vix_normalized * vix weights +
     put_call_normalized * put_call weights +
     momentum_normalized * momentum weights +
     safe_haven_normalized * safe_haven weights"

definition classify :: "rat \<Rightarrow> string \<times> string" where
  "classify score =
     (if score \<le> 20 then (''Extreme Fear'', ''contrarian_buy'')
      else if score \<le> 40 then (''Fear'', ''cautious'')
      else if score \<le> 60 then (''Neutral'', ''neutral'')
      else if score \<le> 80 then (''Greed'', ''cautious'')
      else (''Extreme Greed'', ''contrarian_sell''))"

record fear_greed =
  score :: rat
  classification :: string
  signal :: string

definition calculate_fear_greed_index :: fear_greed where
  "calculate_fear_greed_index =
     (let vix_value = 185 / 10;
          vix_normalized = max 0 (min 100 (100 - (vix_value - 10) * 5));
          put_call_ratio = 75 / 100;
          put_call_normalized = max 0 (min 100 (100 - (put_call_ratio - 5 / 10) * 100));
          market_momentum = 65 / 100;
          momentum_normalized = market_momentum * 100;
          safe_haven_demand = 35 / 100;
          safe_haven_normalized = (1 - safe_haven_demand) * 100;
          s = fear_greed_score vix_normalized put_call_normalized momentum_normalized
                safe_haven_normalized
      in \<lparr>score = s, classification = fst (classify s), signal = snd (classify s)\<rparr>)"
section \<open>Facts about slug derivation\<close>

lemma u_split_Nil_iff: "u_split db s = [] \<longleftrightarrow> (\<forall>c\<in>set s. isspace db c)"
proof -
  have "u_split db s = [] \<longleftrightarrow> dropWhile (isspace db) s = []"
  proof (cases "dropWhile (isspace db) s")
    case Nil
    have "u_split db s = []" by (subst u_split.simps) (simp only: Nil list.case)
    then show ?thesis using Nil by simp
  next
    case (Cons c cs)
    have "u_split db s \<noteq> []" by (subst u_split.simps) (simp only: Cons list.case, simp)
    then show ?thesis using Cons by simp
  qed
  then show ?thesis by (simp add: dropWhile_eq_Nil_conv)
qed

lemma u_split_first_token:
  assumes "u_split db s = w # ws"
  shows "w = takeWhile (\<lambda>x. \<not> isspace db x) (dropWhile (isspace db) s)"
proof (cases "dropWhile (isspace db) s")
  case Nil
  have "u_split db s = []" by (subst u_split.simps) (simp only: Nil list.case)
  then show ?thesis using assms by simp
next
  case (Cons c cs)
  have "u_split db s = (c # takeWhile (\<lambda>x. \<not> isspace db x) cs)
      # u_split db (dropWhile (\<lambda>x. \<not> isspace db x) cs)"
    by (subst u_split.simps) (simp only: Cons list.case)
  then have w: "w = c # takeWhile (\<lambda>x. \<not> isspace db x) cs" using assms by simp
  have "dropWhile (isspace db) s \<noteq> []" using Cons by simp
  then have "\<not> isspace db (hd (dropWhile (isspace db) s))" by (rule hd_dropWhile)
  then have "\<not> isspace db c" using Cons by simp
  then show ?thesis using w Cons by simp
qed

lemma u_split_single:
  assumes "s \<noteq> []" and "\<forall>c\<in>set s. \<not> isspace db c"
  shows "u_split db s = [s]"
proof -
  obtain c cs where s: "s = c # cs" using assms(1) by (cases s) auto
  have d: "dropWhile (isspace db) s = c # cs" using assms(2) s by simp
  have t: "takeWhile (\<lambda>x. \<not> isspace db x) cs = cs" using assms(2) s by simp
  have r: "dropWhile (\<lambda>x. \<not> isspace db x) cs = []" using assms(2) s by simp
  have e: "u_split db [] = []" by (subst u_split.simps) simp
  have "u_split db s = (c # takeWhile (\<lambda>x. \<not> isspace db x) cs)
                       # u_split db (dropWhile (\<lambda>x. \<not> isspace db x) cs)"
    by (subst u_split.simps) (simp only: d list.case)
  then show ?thesis by (simp only: t r e s)
qed

lemma lower_from_fixed:
  "\<forall>c\<in>set s. c \<noteq> 931 \<and> tolower_full db c = [c] \<Longrightarrow> lower_from db passed s = s"
  by (induction s arbitrary: passed) auto

lemma lower_from_chars:
  "d \<in> set (lower_from db passed s) \<Longrightarrow>
   d = 962 \<or> d = 963 \<or> (\<exists>c. d \<in> set (tolower_full db c))"
  by (induction s arbitrary: passed) (auto split: if_splits)

lemma create_slug_eq:
  assumes "create_slug db name = Inr s"
  shows "s = filter (isalnum db)
           (u_lower db (takeWhile (\<lambda>c. \<not> isspace db c) (dropWhile (isspace db) name)))"
proof -
  obtain w ws where sp: "u_split db name = w # ws" and s: "s = filter (isalnum db) (u_lower db w)"
    using assms by (auto simp: create_slug_def Let_def split: list.splits)
  show ?thesis using u_split_first_token [OF sp] s by simp
qed

lemma create_slug_empty: "create_slug db [] = Inl IndexError"
  by (simp add: create_slug_def u_split.simps)

lemma slug_lower_fixed:
  assumes "create_slug db name = Inr s"
    and f2: "\<forall>c d. d \<in> set (tolower_full db c) \<and> isalnum db d
               \<longrightarrow> tolower_full db d = [d] \<and> d \<noteq> 931"
    and f3: "tolower_full db 962 = [962] \<and> tolower_full db 963 = [963]"
  shows "u_lower db s = s"
proof -
  let ?w = "takeWhile (\<lambda>c. \<not> isspace db c) (dropWhile (isspace db) name)"
  have s: "s = filter (isalnum db) (u_lower db ?w)" using assms(1) by (rule create_slug_eq)
  have "\<forall>d\<in>set s. d \<noteq> 931 \<and> tolower_full db d = [d]"
  proof
    fix d assume "d \<in> set s"
    then have a: "isalnum db d" and m: "d \<in> set (lower_from db [] ?w)"
      using s by (auto simp: u_lower_def)
    from lower_from_chars [OF m]
    consider "d = 962" | "d = 963" | c where "d \<in> set (tolower_full db c)" by blast
    then show "d \<noteq> 931 \<and> tolower_full db d = [d]"
    proof cases
      case 1
      then show ?thesis using f3 by simp
    next
      case 2
      then show ?thesis using f3 by simp
    next
      case 3
      then show ?thesis using f2 a by blast
    qed
  qed
  then show ?thesis unfolding u_lower_def by (rule lower_from_fixed)
qed

lemma create_slug_again:
  assumes c: "create_slug db name = Inr s" and n: "s \<noteq> []"
    and f1: "\<forall>c. isalnum db c \<longrightarrow> \<not> isspace db c"
    and f2: "\<forall>c d. d \<in> set (tolower_full db c) \<and> isalnum db d
               \<longrightarrow> tolower_full db d = [d] \<and> d \<noteq> 931"
    and f3: "tolower_full db 962 = [962] \<and> tolower_full db 963 = [963]"
  shows "create_slug db s = Inr s"
proof -
  have al: "\<forall>d\<in>set s. isalnum db d" using create_slug_eq [OF c] by auto
  then have "\<forall>d\<in>set s. \<not> isspace db d" using f1 by blast
  then have sp: "u_split db s = [s]" using n by (rule u_split_single [rotated])
  have lo: "u_lower db s = s" using c f2 f3 by (rule slug_lower_fixed)
  have fi: "filter (isalnum db) s = s" using al by simp
  show ?thesis by (simp add: create_slug_def sp lo fi)
qed

lemma ucd_excerpt_facts:
  "\<forall>c. isalnum ucd_excerpt c \<longrightarrow> \<not> isspace ucd_excerpt c"
  "\<forall>c d. d \<in> set (tolower_full ucd_excerpt c) \<and> isalnum ucd_excerpt d
     \<longrightarrow> tolower_full ucd_excerpt d = [d] \<and> d \<noteq> 931"
  "tolower_full ucd_excerpt 962 = [962] \<and> tolower_full ucd_excerpt 963 = [963]"
  by (auto simp: ucd_excerpt_def latin1_upper_def latin1_lower_def split: if_splits)

section \<open>Claims about slug derivation\<close>

text \<open>
  C9 (as amended). The derived slug is the first whitespace-delimited token of the name,
  lower-cased, with the characters that are not alphanumeric removed; so it contains only
  alphanumeric characters, and it is empty exactly when the lower-cased first token has no
  alphanumeric character. Deriving a slug from the empty slug raises IndexError. In a
  Unicode database where no alphanumeric character is whitespace and every alphanumeric
  character of a lower-case mapping is its own lower-case mapping (the two small sigmas
  included), lower-casing a derived slug leaves it unchanged, and deriving a slug from a
  non-empty derived slug gives the same slug. The slug may still hold an upper-case
  character, one that has no lower-case mapping.
\<close>

theorem create_slug_idempotent_nonempty:
  "create_slug db name = Inr s \<Longrightarrow>
     s = filter (isalnum db)
           (u_lower db (takeWhile (\<lambda>c. \<not> isspace db c) (dropWhile (isspace db) name))) \<and>
     (\<forall>c\<in>set s. isalnum db c) \<and>
     (s = [] \<longleftrightarrow>
        (\<forall>c\<in>set (u_lower db (takeWhile (\<lambda>c. \<not> isspace db c) (dropWhile (isspace db) name))).
           \<not> isalnum db c)) \<and>
     (s = [] \<longrightarrow> create_slug db s = Inl IndexError) \<and>
     ((\<forall>c. isalnum db c \<longrightarrow> \<not> isspace db c) \<and>
      (\<forall>c d. d \<in> set (tolower_full db c) \<and> isalnum db d
         \<longrightarrow> tolower_full db d = [d] \<and> d \<noteq> 931) \<and>
      tolower_full db 962 = [962] \<and> tolower_full db 963 = [963] \<longrightarrow>
        u_lower db s = s \<and> (s \<noteq> [] \<longrightarrow> create_slug db s = Inr s))"
proof -
  assume c: "create_slug db name = Inr s"
  let ?w = "takeWhile (\<lambda>c. \<not> isspace db c) (dropWhile (isspace db) name)"
  have e: "s = filter (isalnum db) (u_lower db ?w)" using c by (rule create_slug_eq)
  have a: "\<forall>c\<in>set s. isalnum db c" using e by auto
  have z: "s = [] \<longleftrightarrow> (\<forall>c\<in>set (u_lower db ?w). \<not> isalnum db c)"
    using e by (simp add: filter_empty_conv)
  have i: "s = [] \<longrightarrow> create_slug db s = Inl IndexError"
    using create_slug_empty by simp
  have f: "(\<forall>c. isalnum db c \<longrightarrow> \<not> isspace db c) \<and>
      (\<forall>c d. d \<in> set (tolower_full db c) \<and> isalnum db d
         \<longrightarrow> tolower_full db d = [d] \<and> d \<noteq> 931) \<and>
      tolower_full db 962 = [962] \<and> tolower_full db 963 = [963] \<longrightarrow>
        u_lower db s = s \<and> (s \<noteq> [] \<longrightarrow> create_slug db s = Inr s)"
    using slug_lower_fixed [OF c] create_slug_again [OF c] by blast
  show ?thesis by (intro conjI e a z i f)
qed

theorem create_slug_idempotent_nonempty_witness:
  "create_slug ucd_excerpt (ustr ''Berkshire Hathaway Inc.'') = Inr (ustr ''berkshire'') \<and>
   create_slug ucd_excerpt (ustr ''berkshire'') = Inr (ustr ''berkshire'') \<and>
   u_lower ucd_excerpt (ustr ''berkshire'') = ustr ''berkshire'' \<and>
   create_slug ucd_excerpt (ustr ''O.A'' @ [931] @ ustr ''. Fund'') = Inr (ustr ''oa'' @ [962]) \<and>
   create_slug ucd_excerpt (ustr ''oa'' @ [962]) = Inr (ustr ''oa'' @ [962])"
proof -
  have h: "create_slug ucd_excerpt (ustr ''Berkshire Hathaway Inc.'') = Inr (ustr ''berkshire'')"
    by code_simp
  have n: "ustr ''berkshire'' \<noteq> []" by (simp add: ustr_def)
  from create_slug_idempotent_nonempty [OF h] ucd_excerpt_facts n
  have 1: "u_lower ucd_excerpt (ustr ''berkshire'') = ustr ''berkshire''"
    and 2: "create_slug ucd_excerpt (ustr ''berkshire'') = Inr (ustr ''berkshire'')"
    by blast+
  have g: "create_slug ucd_excerpt (ustr ''O.A'' @ [931] @ ustr ''. Fund'')
      = Inr (ustr ''oa'' @ [962])"
    by code_simp
  have m: "ustr ''oa'' @ [962] \<noteq> []" by simp
  from create_slug_idempotent_nonempty [OF g] ucd_excerpt_facts m
  have 3: "create_slug ucd_excerpt (ustr ''oa'' @ [962]) = Inr (ustr ''oa'' @ [962])"
    by blast
  show ?thesis using h 1 2 g 3 by blast
qed

text \<open>
  C9 as stated fails twice. The name \<open>& Partners Fund\<close> has the first token \<open>&\<close>, its slug
  is the empty string, and deriving a slug from the empty string raises instead of
  returning it. The name that starts with U+03D2 (978) and continues \<open> Capital\<close> has a slug
  that consists of U+03D2, an upper-case character that lower-casing leaves as it is, so a
  derived slug is not always made of lower-case characters.
\<close>

theorem create_slug_idempotent_counterexample:
  "create_slug ucd_excerpt (ustr ''& Partners Fund'') = Inr [] \<and>
   create_slug ucd_excerpt [] = Inl IndexError \<and>
   create_slug ucd_excerpt (978 # ustr '' Capital'') = Inr [978] \<and>
   isupper ucd_excerpt 978 \<and> isalnum ucd_excerpt 978 \<and> tolower_full ucd_excerpt 978 = [978]"
  by code_simp

text \<open>
  C10. Slug derivation returns a string exactly for the names that contain a
  non-whitespace character; for the empty name and for a name of whitespace only the
  first-token selection raises IndexError and no slug is produced.
\<close>

theorem create_slug_partial:
  "((\<exists>c\<in>set name. \<not> isspace db c) \<longrightarrow> (\<exists>s. create_slug db name = Inr s)) \<and>
   ((\<forall>c\<in>set name. isspace db c) \<longrightarrow> create_slug db name = Inl IndexError) \<and>
   (create_slug db name = Inl IndexError \<longrightarrow> (\<forall>c\<in>set name. isspace db c))"
proof -
  have "u_split db name = [] \<longleftrightarrow> (\<forall>c\<in>set name. isspace db c)" by (rule u_split_Nil_iff)
  then show ?thesis by (auto simp: create_slug_def Let_def split: list.splits)
qed

theorem create_slug_partial_witness:
  "create_slug ucd_excerpt (ustr ''Scion Asset'') = Inr (ustr ''scion'') \<and>
   filter (isspace ucd_excerpt) (ustr ''   '') = ustr ''   '' \<and>
   create_slug ucd_excerpt (ustr ''   '') = Inl IndexError \<and>
   create_slug ucd_excerpt [] = Inl IndexError"
proof -
  have a: "\<exists>c\<in>set (ustr ''Scion Asset''). \<not> isspace ucd_excerpt c" by code_simp
  have b: "\<forall>c\<in>set (ustr ''   ''). isspace ucd_excerpt c" by code_simp
  have c: "\<forall>c\<in>set []. isspace ucd_excerpt c" by simp
  have v: "create_slug ucd_excerpt (ustr ''Scion Asset'') = Inr (ustr ''scion'')" by code_simp
  from create_slug_partial [of "ustr ''Scion Asset''" ucd_excerpt] a v
  have 1: "create_slug ucd_excerpt (ustr ''Scion Asset'') = Inr (ustr ''scion'')" by blast
  from create_slug_partial [of "ustr ''   ''" ucd_excerpt] b
  have 2: "create_slug ucd_excerpt (ustr ''   '') = Inl IndexError" by blast
  from create_slug_partial [of "[]" ucd_excerpt] c
  have 3: "create_slug ucd_excerpt [] = Inl IndexError" by blast
  have 4: "filter (isspace ucd_excerpt) (ustr ''   '') = ustr ''   ''"
    using b by (simp only: filter_id_conv)
  show ?thesis using 1 2 3 4 by blast
qed

section \<open>Transaction-type normalization\<close>

lemma py_startswith_iff: "py_startswith s p \<longleftrightarrow> (\<exists>q. s = p @ q)"
  by (induction s p rule: py_startswith.induct) auto

lemma py_in_iff: "py_in sub s \<longleftrightarrow> (\<exists>p q. s = p @ sub @ q)"
proof (induction s)
  case Nil
  then show ?case by auto
next
  case (Cons c cs)
  show ?case
  proof
    assume "py_in sub (c # cs)"
    then consider "py_startswith (c # cs) sub" | "py_in sub cs" by auto
    then show "\<exists>p q. c # cs = p @ sub @ q"
    proof cases
      case 1
      then obtain q where "c # cs = sub @ q" by (auto simp: py_startswith_iff)
      then have "c # cs = [] @ sub @ q" by simp
      then show ?thesis by blast
    next
      case 2
      then obtain p q where "cs = p @ sub @ q" using Cons.IH by blast
      then have "c # cs = (c # p) @ sub @ q" by simp
      then show ?thesis by blast
    qed
  next
    assume "\<exists>p q. c # cs = p @ sub @ q"
    then obtain p q where e: "c # cs = p @ sub @ q" by blast
    show "py_in sub (c # cs)"
    proof (cases p)
      case Nil
      then have "py_startswith (c # cs) sub" using e by (auto simp: py_startswith_iff)
      then show ?thesis by simp
    next
      case (Cons a p')
      then have "cs = p' @ sub @ q" using e by simp
      then have "py_in sub cs" using Cons.IH by blast
      then show ?thesis by simp
    qed
  qed
qed

text \<open>
  C5. Transaction-type normalization is a total function on strings whose result is one of
  \<open>purchase\<close>, \<open>sale\<close>, \<open>exchange\<close>. It looks for substrings of the lower-cased input:
  \<open>purchase\<close> or \<open>buy\<close> gives \<open>purchase\<close>; otherwise \<open>sale\<close> or \<open>sell\<close> gives \<open>sale\<close>;
  otherwise \<open>exchange\<close> gives \<open>exchange\<close>; every other string, the empty string among
  them, gives the default \<open>purchase\<close>. Two strings that differ only in case have the same
  result.
\<close>

theorem normalize_transaction_type_total:
  "normalize_transaction_type raw \<in> {''purchase'', ''sale'', ''exchange''} \<and>
   ((\<exists>p q. py_lower raw = p @ ''purchase'' @ q) \<or> (\<exists>p q. py_lower raw = p @ ''buy'' @ q)
      \<longrightarrow> normalize_transaction_type raw = ''purchase'') \<and>
   (\<not> ((\<exists>p q. py_lower raw = p @ ''purchase'' @ q) \<or> (\<exists>p q. py_lower raw = p @ ''buy'' @ q)) \<and>
    ((\<exists>p q. py_lower raw = p @ ''sale'' @ q) \<or> (\<exists>p q. py_lower raw = p @ ''sell'' @ q))
      \<longrightarrow> normalize_transaction_type raw = ''sale'') \<and>
   (\<not> ((\<exists>p q. py_lower raw = p @ ''purchase'' @ q) \<or> (\<exists>p q. py_lower raw = p @ ''buy'' @ q)) \<and>
    \<not> ((\<exists>p q. py_lower raw = p @ ''sale'' @ q) \<or> (\<exists>p q. py_lower raw = p @ ''sell'' @ q)) \<and>
    (\<exists>p q. py_lower raw = p @ ''exchange'' @ q)
      \<longrightarrow> normalize_transaction_type raw = ''exchange'') \<and>
   (\<not> ((\<exists>p q. py_lower raw = p @ ''purchase'' @ q) \<or> (\<exists>p q. py_lower raw = p @ ''buy'' @ q)) \<and>
    \<not> ((\<exists>p q. py_lower raw = p @ ''sale'' @ q) \<or> (\<exists>p q. py_lower raw = p @ ''sell'' @ q)) \<and>
    \<not> (\<exists>p q. py_lower raw = p @ ''exchange'' @ q)
      \<longrightarrow> normalize_transaction_type raw = ''purchase'') \<and>
   normalize_transaction_type '''' = ''purchase'' \<and>
   (py_lower raw = py_lower raw' \<longrightarrow>
      normalize_transaction_type raw = normalize_transaction_type raw')"
proof -
  let ?pb = "(\<exists>p q. py_lower raw = p @ ''purchase'' @ q) \<or> (\<exists>p q. py_lower raw = p @ ''buy'' @ q)"
  let ?ss = "(\<exists>p q. py_lower raw = p @ ''sale'' @ q) \<or> (\<exists>p q. py_lower raw = p @ ''sell'' @ q)"
  let ?ex = "\<exists>p q. py_lower raw = p @ ''exchange'' @ q"
  have r: "normalize_transaction_type raw =
     (if ?pb then ''purchase'' else if ?ss then ''sale'' else if ?ex then ''exchange'' else ''purchase'')"
    by (simp only: normalize_transaction_type_def Let_def py_in_iff)
  have a: "normalize_transaction_type raw \<in> {''purchase'', ''sale'', ''exchange''}"
    by (simp only: r) simp
  have b1: "?pb \<longrightarrow> normalize_transaction_type raw = ''purchase''"
    by (simp only: r) simp
  have b2: "\<not> ?pb \<and> ?ss \<longrightarrow> normalize_transaction_type raw = ''sale''"
    by (simp only: r) simp
  have b3: "\<not> ?pb \<and> \<not> ?ss \<and> ?ex \<longrightarrow> normalize_transaction_type raw = ''exchange''"
    by (simp only: r) simp
  have b4: "\<not> ?pb \<and> \<not> ?ss \<and> \<not> ?ex \<longrightarrow> normalize_transaction_type raw = ''purchase''"
    by (simp only: r) simp
  have e: "normalize_transaction_type '''' = ''purchase''"
    by (simp add: normalize_transaction_type_def py_lower_def)
  have g: "py_lower raw = py_lower raw' \<longrightarrow>
      normalize_transaction_type raw = normalize_transaction_type raw'"
    by (simp add: normalize_transaction_type_def Let_def)
  show ?thesis by (intro conjI a b1 b2 b3 b4 e g)
qed

theorem normalize_transaction_type_total_witness:
  "normalize_transaction_type ''Sale (Partial)'' = ''sale'' \<and>
   normalize_transaction_type ''EXCHANGE'' = ''exchange'' \<and>
   normalize_transaction_type ''Stock Buy'' = ''purchase'' \<and>
   normalize_transaction_type ''n/a'' = ''purchase'' \<and>
   normalize_transaction_type ''SALE (partial)'' = normalize_transaction_type ''Sale (Partial)''"
proof -
  have l1: "py_lower ''Sale (Partial)'' = ''sale (partial)''" by code_simp
  have l2: "py_lower ''EXCHANGE'' = ''exchange''" by code_simp
  have l3: "py_lower ''Stock Buy'' = ''stock buy''" by code_simp
  have l4: "py_lower ''n/a'' = ''n/a''" by code_simp
  have l5: "py_lower ''SALE (partial)'' = ''sale (partial)''" by code_simp
  have 1: "normalize_transaction_type ''Sale (Partial)'' = ''sale''"
    using normalize_transaction_type_total [of "''Sale (Partial)''"]
    unfolding py_in_iff [symmetric] l1 by simp
  have 2: "normalize_transaction_type ''EXCHANGE'' = ''exchange''"
    using normalize_transaction_type_total [of "''EXCHANGE''"]
    unfolding py_in_iff [symmetric] l2 by simp
  have 3: "normalize_transaction_type ''Stock Buy'' = ''purchase''"
    using normalize_transaction_type_total [of "''Stock Buy''"]
    unfolding py_in_iff [symmetric] l3 by simp
  have 4: "normalize_transaction_type ''n/a'' = ''purchase''"
    using normalize_transaction_type_total [of "''n/a''"]
    unfolding py_in_iff [symmetric] l4 by simp
  have 5: "normalize_transaction_type ''SALE (partial)'' = normalize_transaction_type ''Sale (Partial)''"
    using normalize_transaction_type_total [of "''SALE (partial)''" "''Sale (Partial)''"] l1 l5
    by simp
  show ?thesis using 1 2 3 4 5 by blast
qed

section \<open>Schema registry\<close>

text \<open>
  C6. For a schema name that is not registered, \<open>DataValidator.validate\<close> returns False
  without raising, whatever the document and whatever the schema library would answer.
\<close>

theorem validate_unregistered_fails_closed:
  "schemas schema_name = None \<Longrightarrow> validate jsv schemas data schema_name = Inr False"
  by (simp add: validate_def)

theorem validate_unregistered_fails_closed_witness:
  "[''congress'' \<mapsto> ''{}''] ''flows'' = None \<and>
   validate (\<lambda>schema data. Passes) [''congress'' \<mapsto> ''{}''] ''any document'' ''flows'' = Inr False"
proof -
  have h: "[''congress'' \<mapsto> ''{}''] ''flows'' = None" by simp
  show ?thesis
    using h validate_unregistered_fails_closed
      [of "[''congress'' \<mapsto> ''{}'']" "''flows''" "\<lambda>schema data. Passes" "''any document''"]
    by blast
qed

section \<open>Sentiment index\<close>

text \<open>
  C7. The score is the weighted sum of the four normalized components with the weights
  0.30, 0.25, 0.25 and 0.20, which sum to 1. The classification and the signal of a score
  are: at most 20, Extreme Fear and contrarian\_buy; above 20 and at most 40, Fear and
  cautious; above 40 and at most 60, Neutral and neutral; above 60 and at most 80, Greed and
  cautious; above 80, Extreme Greed and contrarian\_sell; each score falls in exactly one
  band. With the inputs fixed in the source the score is 65.25, classified Greed.
\<close>

theorem fear_greed_weights_and_bands:
  "fear_greed_score v p m h = (30 / 100) * v + (25 / 100) * p + (25 / 100) * m + (20 / 100) * h \<and>
   vix weights + put_call weights + momentum weights + safe_haven weights = 1 \<and>
   (classify s = (''Extreme Fear'', ''contrarian_buy'') \<longleftrightarrow> s \<le> 20) \<and>
   (classify s = (''Fear'', ''cautious'') \<longleftrightarrow> 20 < s \<and> s \<le> 40) \<and>
   (classify s = (''Neutral'', ''neutral'') \<longleftrightarrow> 40 < s \<and> s \<le> 60) \<and>
   (classify s = (''Greed'', ''cautious'') \<longleftrightarrow> 60 < s \<and> s \<le> 80) \<and>
   (classify s = (''Extreme Greed'', ''contrarian_sell'') \<longleftrightarrow> 80 < s) \<and>
   score calculate_fear_greed_index = 6525 / 100 \<and>
   classification calculate_fear_greed_index = ''Greed'' \<and>
   signal calculate_fear_greed_index = ''cautious''"
proof -
  have w: "vix weights = 30 / 100" "put_call weights = 25 / 100"
    "momentum weights = 25 / 100" "safe_haven weights = 20 / 100"
    by (simp_all add: weights_def)
  have sc: "fear_greed_score v p m h
      = (30 / 100) * v + (25 / 100) * p + (25 / 100) * m + (20 / 100) * h" for v p m h
    by (simp add: fear_greed_score_def w)
  have su: "vix weights + put_call weights + momentum weights + safe_haven weights = 1"
    by (simp add: w)
  have b: "(classify s = (''Extreme Fear'', ''contrarian_buy'') \<longleftrightarrow> s \<le> 20) \<and>
   (classify s = (''Fear'', ''cautious'') \<longleftrightarrow> 20 < s \<and> s \<le> 40) \<and>
   (classify s = (''Neutral'', ''neutral'') \<longleftrightarrow> 40 < s \<and> s \<le> 60) \<and>
   (classify s = (''Greed'', ''cautious'') \<longleftrightarrow> 60 < s \<and> s \<le> 80) \<and>
   (classify s = (''Extreme Greed'', ''contrarian_sell'') \<longleftrightarrow> 80 < s)"
    by (auto simp: classify_def)
  have v: "score calculate_fear_greed_index = 6525 / 100"
    by (simp add: calculate_fear_greed_index_def Let_def sc)
  have c: "classification calculate_fear_greed_index = ''Greed''"
    "signal calculate_fear_greed_index = ''cautious''"
    by (simp_all add: calculate_fear_greed_index_def Let_def sc classify_def)
  show ?thesis using sc su b v c by blast
qed

theorem fear_greed_weights_and_bands_witness:
  "fear_greed_score 100 100 100 100 = 100 \<and> fear_greed_score 100 0 0 0 = 30 \<and>
   classify 20 = (''Extreme Fear'', ''contrarian_buy'') \<and>
   classify (201 / 10) = (''Fear'', ''cautious'') \<and>
   classify 60 = (''Neutral'', ''neutral'') \<and>
   classify 80 = (''Greed'', ''cautious'') \<and>
   classify (801 / 10) = (''Extreme Greed'', ''contrarian_sell'')"
proof -
  have 1: "fear_greed_score 100 100 100 100 = 100"
    using fear_greed_weights_and_bands [of 100 100 100 100 0] by simp
  have 2: "fear_greed_score 100 0 0 0 = 30"
    using fear_greed_weights_and_bands [of 100 0 0 0 0] by simp
  have 3: "classify 20 = (''Extreme Fear'', ''contrarian_buy'')"
    using fear_greed_weights_and_bands [of 0 0 0 0 20] by simp
  have 4: "classify (201 / 10) = (''Fear'', ''cautious'')"
    using fear_greed_weights_and_bands [of 0 0 0 0 "201 / 10"] by simp
  have 5: "classify 60 = (''Neutral'', ''neutral'')"
    using fear_greed_weights_and_bands [of 0 0 0 0 60] by simp
  have 6: "classify 80 = (''Greed'', ''cautious'')"
    using fear_greed_weights_and_bands [of 0 0 0 0 80] by simp
  have 7: "classify (801 / 10) = (''Extreme Greed'', ''contrarian_sell'')"
    using fear_greed_weights_and_bands [of 0 0 0 0 "801 / 10"] by simp
  show ?thesis using 1 2 3 4 5 6 7 by blast
qed

section \<open>Metadata builder\<close>

lemma map_of_dict_set:
  "map_of (dict_set k v d) k' = (if k' = k then Some v else map_of d k')"
  by (induction d) auto

lemma map_of_dict_update_absent:
  "k \<notin> fst ` set e \<Longrightarrow> map_of (dict_update d e) k = map_of d k"
  unfolding dict_update_def
  by (induction e arbitrary: d) (auto simp: map_of_dict_set)

lemma map_of_dict_update_present:
  "distinct (map fst e) \<Longrightarrow> map_of e k = Some v \<Longrightarrow> map_of (dict_update d e) k = Some v"
proof (induction e arbitrary: d)
  case Nil
  then show ?case by simp
next
  case (Cons kv e)
  obtain k1 v1 where kv: "kv = (k1, v1)" by (cases kv)
  have step: "dict_update d (kv # e) = dict_update (dict_set k1 v1 d) e"
    by (simp add: dict_update_def kv)
  show ?case
  proof (cases "k = k1")
    case True
    then have "v = v1" using Cons.prems(2) kv by simp
    moreover have "k \<notin> fst ` set e" using Cons.prems(1) kv True by auto
    ultimately show ?thesis
      using True by (simp add: step map_of_dict_update_absent map_of_dict_set)
  next
    case False
    then have "map_of e k = Some v" using Cons.prems(2) kv by simp
    moreover have "distinct (map fst e)" using Cons.prems(1) by simp
    ultimately show ?thesis using Cons.IH step by simp
  qed
qed

lemma create_metadata_total_count:
  "''total_count'' \<notin> fst ` set kwargs \<Longrightarrow>
   map_of (create_metadata now n kwargs) ''total_count'' = Some (VInt n)"
  by (simp add: create_metadata_def Let_def map_of_dict_update_absent)

text \<open>
  C2 (as amended). The metadata's \<open>last_updated\<close> is the ISO text of the current UTC time
  followed by \<open>Z\<close> whenever the caller passes no keyword argument named
  \<open>last_updated\<close>; a keyword argument of that name replaces the stamp with the
  caller's value. The stamp itself always ends in \<open>Z\<close>.
\<close>

theorem create_metadata_last_updated:
  "(''last_updated'' \<notin> fst ` set kwargs \<longrightarrow>
      map_of (create_metadata now n kwargs) ''last_updated''
        = Some (VStr (isoformat now @ ''Z''))) \<and>
   (distinct (map fst kwargs) \<and> map_of kwargs ''last_updated'' = Some v \<longrightarrow>
      map_of (create_metadata now n kwargs) ''last_updated'' = Some v) \<and>
   last (get_timestamp now) = CHR ''Z''"
  by (simp add: create_metadata_def Let_def get_timestamp_def
        map_of_dict_update_absent map_of_dict_update_present)

theorem create_metadata_last_updated_witness:
  "map_of (create_metadata
      \<lparr>year = 2025, month = 1, day = 5, hour = 10, minute = 30, second = 0, microsecond = 0\<rparr>
      3 [(''house_count'', VInt 2), (''senate_count'', VInt 1)]) ''last_updated''
     = Some (VStr ''2025-01-05T10:30:00Z'') \<and>
   map_of (create_metadata
      \<lparr>year = 2025, month = 1, day = 5, hour = 10, minute = 30, second = 0, microsecond = 0\<rparr>
      3 [(''house_count'', VInt 2), (''last_updated'', VStr ''2001-01-01'')]) ''last_updated''
     = Some (VStr ''2001-01-01'')"
proof -
  let ?now = "\<lparr>year = 2025, month = 1, day = 5, hour = 10, minute = 30, second = 0,
                microsecond = 0\<rparr>"
  have iso: "isoformat ?now = ''2025-01-05T10:30:00''" by code_simp
  have 1: "map_of (create_metadata ?now 3 [(''house_count'', VInt 2), (''senate_count'', VInt 1)])
      ''last_updated'' = Some (VStr ''2025-01-05T10:30:00Z'')"
    using create_metadata_last_updated
      [where kwargs = "[(''house_count'', VInt 2), (''senate_count'', VInt 1)]"
         and now = ?now and n = 3] iso
    by simp
  have 2: "map_of (create_metadata ?now 3
      [(''house_count'', VInt 2), (''last_updated'', VStr ''2001-01-01'')]) ''last_updated''
      = Some (VStr ''2001-01-01'')"
    using create_metadata_last_updated
      [where kwargs = "[(''house_count'', VInt 2), (''last_updated'', VStr ''2001-01-01'')]"
         and v = "VStr ''2001-01-01''" and now = ?now and n = 3]
    by simp
  show ?thesis using 1 2 by blast
qed

text \<open>
  C2 as stated fails: a caller that passes \<open>last_updated="2001-01-01"\<close> gets that value
  back, not the timestamp of the call.
\<close>

theorem create_metadata_last_updated_counterexample:
  "map_of (create_metadata
      \<lparr>year = 2025, month = 1, day = 5, hour = 10, minute = 30, second = 0, microsecond = 0\<rparr>
      0 [(''last_updated'', VStr ''2001-01-01'')]) ''last_updated''
     = Some (VStr ''2001-01-01'') \<and>
   get_timestamp
      \<lparr>year = 2025, month = 1, day = 5, hour = 10, minute = 30, second = 0, microsecond = 0\<rparr>
     = ''2025-01-05T10:30:00Z''"
proof -
  let ?now = "\<lparr>year = 2025, month = 1, day = 5, hour = 10, minute = 30, second = 0,
                microsecond = 0\<rparr>"
  have a: "map_of (create_metadata ?now 0 [(''last_updated'', VStr ''2001-01-01'')])
      ''last_updated'' = Some (VStr ''2001-01-01'')"
    by (simp add: create_metadata_def dict_update_def Let_def)
  have b: "get_timestamp ?now = ''2025-01-05T10:30:00Z''" by code_simp
  show ?thesis using a b by blast
qed

section \<open>Aggregation\<close>

lemma mset_py_sort_reverse: "mset (py_sort_reverse k xs) = mset xs"
  by (simp add: py_sort_reverse_def)

lemma length_py_sort_reverse: "length (py_sort_reverse k xs) = length xs"
  by (simp add: py_sort_reverse_def)

lemma set_py_sort_reverse: "set (py_sort_reverse k xs) = set xs"
  by (simp add: py_sort_reverse_def)

lemma sorted_py_sort_reverse:
  "sorted_wrt (\<lambda>a b. k b \<le> k a) (py_sort_reverse k xs)"
proof -
  have "sorted (map k (sort_key k (rev xs)))" by (rule sorted_sort_key)
  then have "sorted_wrt (\<lambda>a b. k a \<le> k b) (sort_key k (rev xs))"
    by (simp add: sorted_map)
  then show ?thesis by (simp add: py_sort_reverse_def sorted_wrt_rev)
qed

lemma stable_py_sort_reverse:
  "filter (\<lambda>x. k x = v) (py_sort_reverse k xs) = filter (\<lambda>x. k x = v) xs"
proof -
  have "filter (\<lambda>x. k x = v) (py_sort_reverse k xs)
      = rev (filter (\<lambda>x. k x = v) (sort_key k (rev xs)))"
    by (simp add: py_sort_reverse_def rev_filter)
  also have "\<dots> = rev (filter (\<lambda>x. k x = v) (rev xs))"
    by (simp only: sort_key_stable)
  also have "\<dots> = filter (\<lambda>x. k x = v) xs" by (simp add: rev_filter)
  finally show ?thesis .
qed

lemma missing_date_last:
  assumes "i < length (py_sort_reverse date_key xs)"
    and "j < length (py_sort_reverse date_key xs)"
    and "date (py_sort_reverse date_key xs ! i) = None"
    and "date_key (py_sort_reverse date_key xs ! j) \<noteq> ''''"
  shows "j < i"
proof (rule ccontr)
  let ?r = "py_sort_reverse date_key xs"
  assume "\<not> j < i"
  then have "i \<le> j" by simp
  have ki: "date_key (?r ! i) = ''''" using assms(3) by (simp add: date_key_def)
  then have "i \<noteq> j" using assms(4) by auto
  then have "i < j" using \<open>i \<le> j\<close> by simp
  then have "date_key (?r ! j) \<le> date_key (?r ! i)"
    using sorted_py_sort_reverse [of date_key xs] assms(2)
    by (simp add: sorted_wrt_iff_nth_less)
  then have "date_key (?r ! j) = ''''" using ki by simp
  then show False using assms(4) by simp
qed

text \<open>
  C8. The aggregate step of the congress fetcher yields the House records followed by the
  Senate records, rearranged so that the \<open>date\<close> keys descend; the insiders fetcher does
  the same with its one list. The result has exactly the records of the input, records
  with equal keys keep their order, and a record without a date has the key \<open>''\<close>, the
  least string, so it comes after every record whose date is not empty.
\<close>

theorem aggregate_sorted_descending:
  "mset (congress_aggregate house senate) = mset (house @ senate) \<and>
   sorted_wrt (\<lambda>a b. date_key b \<le> date_key a) (congress_aggregate house senate) \<and>
   (\<forall>v. filter (\<lambda>x. date_key x = v) (congress_aggregate house senate)
        = filter (\<lambda>x. date_key x = v) (house @ senate)) \<and>
   (\<forall>i j. i < length (congress_aggregate house senate) \<and>
          j < length (congress_aggregate house senate) \<and>
          date (congress_aggregate house senate ! i) = None \<and>
          date_key (congress_aggregate house senate ! j) \<noteq> '''' \<longrightarrow> j < i) \<and>
   mset (insiders_aggregate txs) = mset txs \<and>
   sorted_wrt (\<lambda>a b. date_key b \<le> date_key a) (insiders_aggregate txs) \<and>
   (\<forall>v. filter (\<lambda>x. date_key x = v) (insiders_aggregate txs)
        = filter (\<lambda>x. date_key x = v) txs) \<and>
   (\<forall>i j. i < length (insiders_aggregate txs) \<and> j < length (insiders_aggregate txs) \<and>
          date (insiders_aggregate txs ! i) = None \<and>
          date_key (insiders_aggregate txs ! j) \<noteq> '''' \<longrightarrow> j < i) \<and>
   (\<forall>d. '''' \<le> (d :: string))"
proof -
  have c: "congress_aggregate house senate = py_sort_reverse date_key (house @ senate)"
    by (simp add: congress_aggregate_def Let_def)
  have i: "insiders_aggregate txs = py_sort_reverse date_key txs"
    by (simp add: insiders_aggregate_def)
  have m: "\<forall>i j. i < length (py_sort_reverse date_key xs) \<and>
          j < length (py_sort_reverse date_key xs) \<and>
          date (py_sort_reverse date_key xs ! i) = None \<and>
          date_key (py_sort_reverse date_key xs ! j) \<noteq> [] \<longrightarrow> j < i" for xs
    using missing_date_last by blast
  have l: "\<forall>d. [] \<le> (d :: string)" by simp
  have st: "\<forall>v. filter (\<lambda>x. date_key x = v) (py_sort_reverse date_key xs)
        = filter (\<lambda>x. date_key x = v) xs" for xs
    by (simp add: stable_py_sort_reverse)
  show ?thesis
    unfolding c i
    by (intro conjI mset_py_sort_reverse sorted_py_sort_reverse st m l)
qed

theorem aggregate_sorted_descending_witness:
  "congress_aggregate
      [\<lparr>date = Some ''2025-01-05'', entries = [(''person'', VStr ''A'')]\<rparr>,
       \<lparr>date = None, entries = [(''person'', VStr ''B'')]\<rparr>,
       \<lparr>date = Some ''2025-01-05'', entries = [(''person'', VStr ''C'')]\<rparr>]
      [\<lparr>date = Some ''2025-02-01'', entries = [(''person'', VStr ''D'')]\<rparr>]
     = [\<lparr>date = Some ''2025-02-01'', entries = [(''person'', VStr ''D'')]\<rparr>,
        \<lparr>date = Some ''2025-01-05'', entries = [(''person'', VStr ''A'')]\<rparr>,
        \<lparr>date = Some ''2025-01-05'', entries = [(''person'', VStr ''C'')]\<rparr>,
        \<lparr>date = None, entries = [(''person'', VStr ''B'')]\<rparr>] \<and>
   insiders_aggregate generate_sample_transactions = rev generate_sample_transactions \<and>
   sorted_wrt (\<lambda>a b. date_key b \<le> date_key a) (insiders_aggregate generate_sample_transactions) \<and>
   (0 :: nat) < 3"
proof -
  let ?h = "[\<lparr>date = Some ''2025-01-05'', entries = [(''person'', VStr ''A'')]\<rparr>,
       \<lparr>date = None, entries = [(''person'', VStr ''B'')]\<rparr>,
       \<lparr>date = Some ''2025-01-05'', entries = [(''person'', VStr ''C'')]\<rparr>]"
  let ?s = "[\<lparr>date = Some ''2025-02-01'', entries = [(''person'', VStr ''D'')]\<rparr>]"
  have v: "congress_aggregate ?h ?s
     = [\<lparr>date = Some ''2025-02-01'', entries = [(''person'', VStr ''D'')]\<rparr>,
        \<lparr>date = Some ''2025-01-05'', entries = [(''person'', VStr ''A'')]\<rparr>,
        \<lparr>date = Some ''2025-01-05'', entries = [(''person'', VStr ''C'')]\<rparr>,
        \<lparr>date = None, entries = [(''person'', VStr ''B'')]\<rparr>]"
    by (simp add: congress_aggregate_def py_sort_reverse_def date_key_def)
  have w: "insiders_aggregate generate_sample_transactions = rev generate_sample_transactions"
    by (simp add: insiders_aggregate_def py_sort_reverse_def date_key_def
          generate_sample_transactions_def)
  note t = aggregate_sorted_descending [of ?h ?s generate_sample_transactions]
  have s: "sorted_wrt (\<lambda>a b. date_key b \<le> date_key a)
      (insiders_aggregate generate_sample_transactions)"
    using t by blast
  have "3 < length (congress_aggregate ?h ?s) \<and> 0 < length (congress_aggregate ?h ?s) \<and>
      date (congress_aggregate ?h ?s ! 3) = None \<and>
      date_key (congress_aggregate ?h ?s ! 0) \<noteq> ''''"
    by (simp add: v date_key_def)
  then have l: "(0 :: nat) < 3" using t by blast
  show ?thesis using v w s l by blast
qed

section \<open>Document assembly\<close>

lemma congress_fetch_all_Inr:
  assumes "congress_fetch_all now house senate = Inr doc"
  shows "transactions doc = congress_aggregate house senate"
    and "\<exists>kw. metadata doc = create_metadata now (int (length (congress_aggregate house senate))) kw
          \<and> ''total_count'' \<notin> fst ` set kw"
  using assms
  by (auto simp: congress_fetch_all_def Let_def split: sum.splits if_splits)

lemma congress_fetch_all_returns:
  assumes "\<forall>x\<in>set (house @ senate). date x \<noteq> None"
  shows "\<exists>doc. congress_fetch_all now house senate = Inr doc"
proof -
  let ?all = "congress_aggregate house senate"
  have s: "set ?all = set (house @ senate)"
    by (simp add: congress_aggregate_def Let_def set_py_sort_reverse)
  have d: "?all \<noteq> [] \<Longrightarrow> \<exists>a b. date_item (last ?all) = Inr a \<and> date_item (hd ?all) = Inr b"
  proof -
    assume n: "?all \<noteq> []"
    then have "last ?all \<in> set ?all" "hd ?all \<in> set ?all" by simp_all
    then have "date (last ?all) \<noteq> None" "date (hd ?all) \<noteq> None" using assms s by blast+
    then show ?thesis by (auto simp: date_item_def)
  qed
  show ?thesis
  proof (cases "?all = []")
    case True
    then show ?thesis by (simp add: congress_fetch_all_def Let_def)
  next
    case False
    then obtain a b where "date_item (last ?all) = Inr a" "date_item (hd ?all) = Inr b"
      using d by blast
    then show ?thesis using False by (simp add: congress_fetch_all_def Let_def)
  qed
qed

text \<open>
  C3 (as amended). In the congress document and in the insiders document the metadata's
  \<open>total_count\<close> is the length of the transaction list of the document, which has as
  many records as the fetched lists together; the congress document is produced whenever
  every fetched record has a date. The flows document carries two record lists, and its
  metadata has the lengths under \<open>etf_count\<close> and \<open>options_count\<close>, while
  \<open>total_count\<close> is the default 0.
\<close>

theorem total_count_is_length:
  "(congress_fetch_all now house senate = Inr doc \<longrightarrow>
      map_of (metadata doc) ''total_count'' = Some (VInt (int (length (transactions doc)))) \<and>
      length (transactions doc) = length house + length senate) \<and>
   ((\<forall>x\<in>set (house @ senate). date x \<noteq> None) \<longrightarrow>
      (\<exists>doc. congress_fetch_all now house senate = Inr doc)) \<and>
   map_of (metadata (insiders_assemble now txs)) ''total_count''
     = Some (VInt (int (length (transactions (insiders_assemble now txs))))) \<and>
   length (transactions (insiders_assemble now txs)) = length txs \<and>
   map_of (flows_metadata (flows_fetch_all now today)) ''total_count'' = Some (VInt 0) \<and>
   map_of (flows_metadata (flows_fetch_all now today)) ''etf_count''
     = Some (VInt (int (length (etf_flows (flows_fetch_all now today))))) \<and>
   map_of (flows_metadata (flows_fetch_all now today)) ''options_count''
     = Some (VInt (int (length (options (flows_fetch_all now today)))))"
proof -
  have c: "congress_fetch_all now house senate = Inr doc \<longrightarrow>
      map_of (metadata doc) ''total_count'' = Some (VInt (int (length (transactions doc)))) \<and>
      length (transactions doc) = length house + length senate"
  proof
    assume a: "congress_fetch_all now house senate = Inr doc"
    have t: "transactions doc = congress_aggregate house senate"
      using a by (rule congress_fetch_all_Inr)
    obtain kw where "metadata doc
        = create_metadata now (int (length (congress_aggregate house senate))) kw"
      and "''total_count'' \<notin> fst ` set kw"
      using congress_fetch_all_Inr(2) [OF a] by blast
    then have "map_of (metadata doc) ''total_count''
        = Some (VInt (int (length (congress_aggregate house senate))))"
      by (simp add: create_metadata_total_count)
    moreover have "length (congress_aggregate house senate) = length house + length senate"
      by (simp add: congress_aggregate_def Let_def length_py_sort_reverse)
    ultimately show "map_of (metadata doc) ''total_count''
        = Some (VInt (int (length (transactions doc)))) \<and>
      length (transactions doc) = length house + length senate"
      by (simp add: t)
  qed
  have r: "(\<forall>x\<in>set (house @ senate). date x \<noteq> None) \<longrightarrow>
      (\<exists>doc. congress_fetch_all now house senate = Inr doc)"
    using congress_fetch_all_returns by blast
  have i1: "map_of (metadata (insiders_assemble now txs)) ''total_count''
     = Some (VInt (int (length (transactions (insiders_assemble now txs)))))"
    by (simp add: insiders_assemble_def Let_def create_metadata_total_count)
  have i2: "length (transactions (insiders_assemble now txs)) = length txs"
    by (simp add: insiders_assemble_def Let_def insiders_aggregate_def length_py_sort_reverse)
  have f1: "map_of (flows_metadata (flows_fetch_all now today)) ''total_count'' = Some (VInt 0)"
    by (simp add: flows_fetch_all_def Let_def create_metadata_total_count default_total_count_def)
  have f2: "map_of (flows_metadata (flows_fetch_all now today)) ''etf_count''
     = Some (VInt (int (length (etf_flows (flows_fetch_all now today)))))"
    by (simp add: flows_fetch_all_def Let_def create_metadata_def dict_update_def)
  have f3: "map_of (flows_metadata (flows_fetch_all now today)) ''options_count''
     = Some (VInt (int (length (options (flows_fetch_all now today)))))"
    by (simp add: flows_fetch_all_def Let_def create_metadata_def dict_update_def)
  show ?thesis by (intro conjI c r i1 i2 f1 f2 f3)
qed

theorem total_count_is_length_witness:
  "map_of (metadata (insiders_fetch_all
      \<lparr>year = 2025, month = 11, day = 14, hour = 6, minute = 0, second = 0, microsecond = 0\<rparr>))
      ''total_count'' = Some (VInt 2) \<and>
   (\<exists>doc. congress_fetch_all
      \<lparr>year = 2025, month = 11, day = 14, hour = 6, minute = 0, second = 0, microsecond = 0\<rparr>
      [\<lparr>date = Some ''2025-01-05'', entries = [(''person'', VStr ''A'')]\<rparr>] [] = Inr doc \<and>
      map_of (metadata doc) ''total_count'' = Some (VInt 1))"
proof -
  let ?now = "\<lparr>year = 2025, month = 11, day = 14, hour = 6, minute = 0, second = 0,
                microsecond = 0\<rparr>"
  let ?h = "[\<lparr>date = Some ''2025-01-05'', entries = [(''person'', VStr ''A'')]\<rparr>]"
  have i: "map_of (metadata (insiders_fetch_all ?now)) ''total_count'' = Some (VInt 2)"
    using total_count_is_length [where now = ?now and txs = "fetch_recent_form4 30"]
    by (simp add: insiders_fetch_all_def fetch_recent_form4_def generate_sample_transactions_def)
  have d: "\<forall>x\<in>set (?h @ []). date x \<noteq> None" by simp
  then obtain doc where e: "congress_fetch_all ?now ?h [] = Inr doc"
    using total_count_is_length [where now = ?now and house = ?h and senate = "[]"] by blast
  then have "map_of (metadata doc) ''total_count'' = Some (VInt (int (length (transactions doc))))
      \<and> length (transactions doc) = length ?h + length ([] :: transaction list)"
    using total_count_is_length [where now = ?now and house = ?h and senate = "[]" and doc = doc]
    by blast
  then have "map_of (metadata doc) ''total_count'' = Some (VInt 1)" by simp
  then show ?thesis using i e by blast
qed

text \<open>
  C3 as stated fails for the flows document: its metadata is built without
  \<open>total_count\<close>, so the field is 0 while the document carries three ETF-flow records
  and three options records.
\<close>

theorem total_count_flows_counterexample:
  "map_of (flows_metadata (flows_fetch_all
      \<lparr>year = 2025, month = 11, day = 14, hour = 6, minute = 0, second = 0, microsecond = 0\<rparr>
      ''2025-11-14'')) ''total_count'' = Some (VInt 0) \<and>
   length (etf_flows (flows_fetch_all
      \<lparr>year = 2025, month = 11, day = 14, hour = 6, minute = 0, second = 0, microsecond = 0\<rparr>
      ''2025-11-14'')) = 3 \<and>
   length (options (flows_fetch_all
      \<lparr>year = 2025, month = 11, day = 14, hour = 6, minute = 0, second = 0, microsecond = 0\<rparr>
      ''2025-11-14'')) = 3"
  by (simp add: flows_fetch_all_def Let_def create_metadata_def dict_update_def
        default_total_count_def fetch_etf_flows_def fetch_options_data_def)

section \<open>Validation before persistence\<close>

lemma validated_save_gate:
  "(validate jsv schemas data name \<noteq> Inr True \<longrightarrow>
      snd (validated_save name jsv schemas io data path sink) = sink \<and>
      fst (validated_save name jsv schemas io data path sink) \<noteq> Inr True)"
  "(validate jsv schemas data name = Inr False \<longrightarrow>
      validated_save name jsv schemas io data path sink = (Inr False, sink))"
  by (auto simp: validated_save_def split: sum.splits)

lemma save_all_loop_writes:
  "\<exists>ws. snd (save_all_loop jsv schemas io funds ok sink) = sink @ ws \<and>
        (\<forall>pd\<in>set ws. validate jsv schemas (snd pd) ''fund_13f'' = Inr True)"
proof (induction funds arbitrary: ok sink)
  case Nil
  then show ?case by simp
next
  case (Cons f funds)
  obtain slug d where f: "f = (slug, d)" by (cases f)
  show ?case
  proof (cases "validate jsv schemas d ''fund_13f''")
    case (Inl e)
    then show ?thesis by (simp add: f Let_def)
  next
    case (Inr b)
    show ?thesis
    proof (cases b)
      case False
      then show ?thesis using Inr Cons.IH [of False sink] by (simp add: f Let_def)
    next
      case True
      let ?sink = "sink @ [(fund_output_path slug, d)]"
      let ?ok = "if \<not> io (fund_output_path slug) d then False else ok"
      obtain ws where w: "snd (save_all_loop jsv schemas io funds ?ok ?sink) = ?sink @ ws"
        and v: "\<forall>pd\<in>set ws. validate jsv schemas (snd pd) ''fund_13f'' = Inr True"
        using Cons.IH [of ?ok ?sink] by blast
      have "snd (save_all_loop jsv schemas io (f # funds) ok sink)
          = sink @ ((fund_output_path slug, d) # ws)"
        using Inr True w by (simp add: f write_json_def Let_def)
      moreover have "\<forall>pd\<in>set ((fund_output_path slug, d) # ws).
          validate jsv schemas (snd pd) ''fund_13f'' = Inr True"
        using v Inr True by simp
      ultimately show ?thesis by blast
    qed
  qed
qed

lemma save_all_loop_success:
  "fst (save_all_loop jsv schemas io funds ok sink) = Inr True \<Longrightarrow>
   ok \<and> (\<forall>sd\<in>set funds. validate jsv schemas (snd sd) ''fund_13f'' = Inr True)"
proof (induction funds arbitrary: ok sink)
  case Nil
  then show ?case by simp
next
  case (Cons f funds)
  obtain slug d where f: "f = (slug, d)" by (cases f)
  show ?case
  proof (cases "validate jsv schemas d ''fund_13f''")
    case (Inl e)
    then show ?thesis using Cons.prems by (simp add: f Let_def)
  next
    case (Inr b)
    show ?thesis
    proof (cases b)
      case False
      then have "fst (save_all_loop jsv schemas io funds False sink) = Inr True"
        using Cons.prems Inr by (simp add: f Let_def)
      then have False using Cons.IH [of False sink] by simp
      then show ?thesis ..
    next
      case True
      let ?sink = "sink @ [(fund_output_path slug, d)]"
      let ?ok = "if \<not> io (fund_output_path slug) d then False else ok"
      have "fst (save_all_loop jsv schemas io funds ?ok ?sink) = Inr True"
        using Cons.prems Inr True by (simp add: f write_json_def Let_def)
      then have "?ok \<and> (\<forall>sd\<in>set funds. validate jsv schemas (snd sd) ''fund_13f'' = Inr True)"
        by (rule Cons.IH)
      then show ?thesis using Inr True by (auto simp: f split: if_splits)
    qed
  qed
qed

text \<open>
  C1 (as amended). The congress, insiders and macro fetchers validate the document against
  their schema before persisting: when validation does not succeed, \<open>save\<close> does not call
  the writer and does not report success, and when validation returns False, \<open>save\<close>
  returns False. The 13F fetcher validates each fund's document, passes to the writer
  only documents that validated, and reports success only when every document validated.
  The flows and sentiment fetchers persist without validation: their \<open>save\<close> hands
  every document to the writer and returns the writer's result.
\<close>

theorem save_validates_before_write:
  "(validate jsv schemas data ''congress'' \<noteq> Inr True \<longrightarrow>
      snd (congress_save jsv schemas io data path sink) = sink \<and>
      fst (congress_save jsv schemas io data path sink) \<noteq> Inr True) \<and>
   (validate jsv schemas data ''congress'' = Inr False \<longrightarrow>
      congress_save jsv schemas io data path sink = (Inr False, sink)) \<and>
   (validate jsv schemas data ''insiders'' \<noteq> Inr True \<longrightarrow>
      snd (insiders_save jsv schemas io data path sink) = sink \<and>
      fst (insiders_save jsv schemas io data path sink) \<noteq> Inr True) \<and>
   (validate jsv schemas data ''insiders'' = Inr False \<longrightarrow>
      insiders_save jsv schemas io data path sink = (Inr False, sink)) \<and>
   (validate jsv schemas data ''macro'' \<noteq> Inr True \<longrightarrow>
      snd (macro_save jsv schemas io data path sink) = sink \<and>
      fst (macro_save jsv schemas io data path sink) \<noteq> Inr True) \<and>
   (validate jsv schemas data ''macro'' = Inr False \<longrightarrow>
      macro_save jsv schemas io data path sink = (Inr False, sink)) \<and>
   (\<exists>ws. snd (save_all jsv schemas io funds sink) = sink @ ws \<and>
         (\<forall>pd\<in>set ws. validate jsv schemas (snd pd) ''fund_13f'' = Inr True)) \<and>
   (fst (save_all jsv schemas io funds sink) = Inr True \<longrightarrow>
      (\<forall>sd\<in>set funds. validate jsv schemas (snd sd) ''fund_13f'' = Inr True)) \<and>
   flows_save jsv schemas io data path sink = (Inr (io path data), sink @ [(path, data)]) \<and>
   sentiment_save jsv schemas io data path sink = (Inr (io path data), sink @ [(path, data)])"
proof -
  have f: "flows_save jsv schemas io data path sink = (Inr (io path data), sink @ [(path, data)])"
    by (simp add: flows_save_def write_json_def)
  have s: "sentiment_save jsv schemas io data path sink
      = (Inr (io path data), sink @ [(path, data)])"
    by (simp add: sentiment_save_def write_json_def)
  have a: "\<exists>ws. snd (save_all jsv schemas io funds sink) = sink @ ws \<and>
         (\<forall>pd\<in>set ws. validate jsv schemas (snd pd) ''fund_13f'' = Inr True)"
    unfolding save_all_def by (rule save_all_loop_writes)
  have b: "fst (save_all jsv schemas io funds sink) = Inr True \<longrightarrow>
      (\<forall>sd\<in>set funds. validate jsv schemas (snd sd) ''fund_13f'' = Inr True)"
    unfolding save_all_def using save_all_loop_success by blast
  show ?thesis
    unfolding congress_save_def insiders_save_def macro_save_def
    by (intro conjI validated_save_gate f s a b)
qed

theorem save_validates_before_write_witness:
  "congress_save (\<lambda>schema d. if d = ''bad'' then RaisesValidationError else Passes)
      [''congress'' \<mapsto> ''s'', ''fund_13f'' \<mapsto> ''s''] (\<lambda>p d. True)
      ''bad'' ''data/congress/all.json'' [] = (Inr False, []) \<and>
   snd (save_all (\<lambda>schema d. if d = ''bad'' then RaisesValidationError else Passes)
      [''congress'' \<mapsto> ''s'', ''fund_13f'' \<mapsto> ''s''] (\<lambda>p d. True)
      [(''scion'', ''good''), (''berkshire'', ''bad'')] [])
     = [(''data/funds/scion.json'', ''good'')] \<and>
   fst (save_all (\<lambda>schema d. if d = ''bad'' then RaisesValidationError else Passes)
      [''congress'' \<mapsto> ''s'', ''fund_13f'' \<mapsto> ''s''] (\<lambda>p d. True)
      [(''scion'', ''good''), (''berkshire'', ''bad'')] []) = Inr False"
proof -
  let ?jsv = "\<lambda>(schema :: string) (d :: string). if d = ''bad'' then RaisesValidationError else Passes"
  let ?reg = "[''congress'' \<mapsto> ''s'', ''fund_13f'' \<mapsto> ''s'']"
  let ?io = "\<lambda>(p :: string) (d :: string). True"
  let ?funds = "[(''scion'', ''good''), (''berkshire'', ''bad'')]"
  note t = save_validates_before_write
    [where jsv = ?jsv and schemas = ?reg and io = ?io and data = "''bad''"
       and path = "''data/congress/all.json''" and sink = "[]" and funds = ?funds]
  have v: "validate ?jsv ?reg ''bad'' ''congress'' = Inr False" by (simp add: validate_def)
  have 1: "congress_save ?jsv ?reg ?io ''bad'' ''data/congress/all.json'' [] = (Inr False, [])"
    using t v by blast
  have 2: "snd (save_all ?jsv ?reg ?io ?funds []) = [(''data/funds/scion.json'', ''good'')]"
    by (simp add: save_all_def validate_def write_json_def fund_output_path_def)
  have "\<not> (\<forall>sd\<in>set ?funds. validate ?jsv ?reg (snd sd) ''fund_13f'' = Inr True)"
    by (simp add: validate_def)
  then have n: "fst (save_all ?jsv ?reg ?io ?funds []) \<noteq> Inr True" using t by blast
  have 3: "fst (save_all ?jsv ?reg ?io ?funds []) = Inr False"
    by (simp add: save_all_def validate_def write_json_def fund_output_path_def)
  show ?thesis using 1 2 3 n by blast
qed

text \<open>
  C1 as stated fails for the flows fetcher (and likewise for the sentiment fetcher): a
  document that the registry rejects under the schema \<open>flows\<close> is still handed to the
  writer, and \<open>save\<close> returns the writer's success.
\<close>

theorem flows_save_counterexample:
  "validate (\<lambda>schema d. RaisesValidationError) [''flows'' \<mapsto> ''s''] ''bad'' ''flows''
     = Inr False \<and>
   flows_save (\<lambda>schema d. RaisesValidationError) [''flows'' \<mapsto> ''s''] (\<lambda>p d. True)
      ''bad'' ''data/flows/latest.json'' []
     = (Inr True, [(''data/flows/latest.json'', ''bad'')])"
  by (simp add: validate_def flows_save_def write_json_def)

section \<open>Amount-range parsing\<close>

lemma split_first_fst: "fst (split_first d s) = takeWhile (\<lambda>c. c \<noteq> d) s"
  by (induction s) (auto split: prod.splits)

lemma split_first_append:
  "d \<notin> set a \<Longrightarrow> split_first d (a @ d # r) = (a, py_split_on d r)"
  by (induction a) (auto simp: py_split_on_def split: prod.splits)

lemma py_split_on_hd: "\<exists>ps. py_split_on d r = takeWhile (\<lambda>c. c \<noteq> d) r # ps"
  using split_first_fst [of d r] by (auto simp: py_split_on_def split: prod.splits)

lemma py_strip_leading_space: "py_isspace c \<Longrightarrow> py_strip (c # s) = py_strip s"
  by (simp add: py_strip_def)

lemma py_strip_trailing_space:
  assumes "py_isspace c"
  shows "py_strip (s @ [c]) = py_strip s"
proof (cases "\<forall>x\<in>set s. py_isspace x")
  case True
  then have "\<forall>x\<in>set (s @ [c]). py_isspace x" using assms by simp
  then have 1: "dropWhile py_isspace (s @ [c]) = []" by (simp only: dropWhile_eq_Nil_conv)
  have 2: "dropWhile py_isspace s = []" using True by (simp only: dropWhile_eq_Nil_conv)
  show ?thesis by (simp only: py_strip_def 1 2)
next
  case False
  then obtain x where "x \<in> set s" "\<not> py_isspace x" by blast
  then have "dropWhile py_isspace (s @ [c]) = dropWhile py_isspace s @ [c]"
    by (rule dropWhile_append1)
  then show ?thesis using assms by (simp add: py_strip_def)
qed

lemma clean_amount_append: "clean_amount (a @ b) = clean_amount a @ clean_amount b"
  by (simp add: clean_amount_def py_remove_def)

lemma clean_amount_no_hyphen: "CHR ''-'' \<notin> set s \<Longrightarrow> CHR ''-'' \<notin> set (clean_amount s)"
  by (simp add: clean_amount_def py_remove_def)

lemma parse_amount_try_one_sided:
  assumes "CHR ''-'' \<notin> set s"
  shows "parse_amount_try s =
     (case py_float (py_strip (clean_amount s)) of
        None \<Rightarrow> Inl ValueError | Some v \<Rightarrow> Inr (PFloat v, PFloat v))"
  using clean_amount_no_hyphen [OF assms]
  by (simp add: parse_amount_try_def Let_def to_float_def split: option.splits)

lemma parse_amount_try_two_sided:
  assumes c: "clean_amount s = p0 @ CHR ''-'' # r" and n: "CHR ''-'' \<notin> set p0"
  shows "parse_amount_try s =
     (case py_float (py_strip p0) of
        None \<Rightarrow> Inl ValueError
      | Some x \<Rightarrow>
          (case py_float (py_strip (takeWhile (\<lambda>c. c \<noteq> CHR ''-'') r)) of
             None \<Rightarrow> Inl ValueError
           | Some y \<Rightarrow> Inr (PFloat x, PFloat y)))"
proof -
  obtain ps where ps: "py_split_on (CHR ''-'') r = takeWhile (\<lambda>c. c \<noteq> CHR ''-'') r # ps"
    using py_split_on_hd by blast
  have parts: "py_split_on (CHR ''-'') (clean_amount s)
      = p0 # takeWhile (\<lambda>c. c \<noteq> CHR ''-'') r # ps"
    using split_first_append [OF n, of r] ps by (simp add: c py_split_on_def)
  have h: "CHR ''-'' \<in> set (clean_amount s)" by (simp add: c)
  show ?thesis
    by (simp add: parse_amount_try_def Let_def h parts list_get_def to_float_def
          split: option.splits)
qed

lemma dollar_range_clean:
  "clean_amount (''$'' @ a @ '' - $'' @ b)
     = (clean_amount a @ '' '') @ CHR ''-'' # ('' '' @ clean_amount b)"
  by (simp add: clean_amount_append) (simp add: clean_amount_def py_remove_def)

lemma py_isspace_blank: "py_isspace (CHR '' '')"
  by (simp add: py_isspace_def code_point_def)

text \<open>
  C4 (as amended). Write \<open>clean\<close> for the removal of every \<open>$\<close> and comma, and call a
  string numeric when \<open>float\<close> accepts it once cleaned and stripped of surrounding
  whitespace. For \<open>a\<close> and \<open>b\<close> numeric and free of hyphens, \<open>"$a - $b"\<close> parses to
  \<open>(float(a), float(b))\<close>; a hyphen-free numeric string parses to \<open>(v, v)\<close>; a hyphen-free
  string that is not numeric parses to \<open>(0, 0)\<close>. A string with a hyphen is cut at its
  hyphens and only the first two pieces are read: the result is their two values when
  both are numeric and \<open>(0, 0)\<close> otherwise. Every error raised on the way gives \<open>(0, 0)\<close>,
  so the function returns for every string.
\<close>

theorem parse_amount_range_cases:
  "(CHR ''-'' \<notin> set a \<and> CHR ''-'' \<notin> set b \<and>
    py_float (py_strip (clean_amount a)) = Some x \<and>
    py_float (py_strip (clean_amount b)) = Some y \<longrightarrow>
      parse_amount_range (''$'' @ a @ '' - $'' @ b) = (PFloat x, PFloat y)) \<and>
   (CHR ''-'' \<notin> set s \<and> py_float (py_strip (clean_amount s)) = Some v \<longrightarrow>
      parse_amount_range s = (PFloat v, PFloat v)) \<and>
   (CHR ''-'' \<notin> set s \<and> py_float (py_strip (clean_amount s)) = None \<longrightarrow>
      parse_amount_range s = (PInt 0, PInt 0)) \<and>
   (clean_amount s = p0 @ CHR ''-'' # r \<and> CHR ''-'' \<notin> set p0 \<and>
    py_float (py_strip p0) = Some x \<and>
    py_float (py_strip (takeWhile (\<lambda>c. c \<noteq> CHR ''-'') r)) = Some y \<longrightarrow>
      parse_amount_range s = (PFloat x, PFloat y)) \<and>
   (clean_amount s = p0 @ CHR ''-'' # r \<and> CHR ''-'' \<notin> set p0 \<and>
    (py_float (py_strip p0) = None \<or>
     py_float (py_strip (takeWhile (\<lambda>c. c \<noteq> CHR ''-'') r)) = None) \<longrightarrow>
      parse_amount_range s = (PInt 0, PInt 0)) \<and>
   (parse_amount_try s = Inl e \<longrightarrow> parse_amount_range s = (PInt 0, PInt 0))"
proof -
  have 1: "CHR ''-'' \<notin> set a \<and> CHR ''-'' \<notin> set b \<and>
    py_float (py_strip (clean_amount a)) = Some x \<and>
    py_float (py_strip (clean_amount b)) = Some y \<longrightarrow>
      parse_amount_range (''$'' @ a @ '' - $'' @ b) = (PFloat x, PFloat y)"
  proof
    assume h: "CHR ''-'' \<notin> set a \<and> CHR ''-'' \<notin> set b \<and>
      py_float (py_strip (clean_amount a)) = Some x \<and>
      py_float (py_strip (clean_amount b)) = Some y"
    have n: "CHR ''-'' \<notin> set (clean_amount a @ '' '')"
      using h clean_amount_no_hyphen by simp
    have "CHR ''-'' \<notin> set ('' '' @ clean_amount b)"
      using h clean_amount_no_hyphen by simp
    then have "\<forall>c\<in>set ('' '' @ clean_amount b). c \<noteq> CHR ''-''" by blast
    then have t: "takeWhile (\<lambda>c. c \<noteq> CHR ''-'') ('' '' @ clean_amount b)
        = '' '' @ clean_amount b"
      by (simp only: takeWhile_eq_all_conv)
    have l: "py_strip (clean_amount a @ '' '') = py_strip (clean_amount a)"
      using py_strip_trailing_space [OF py_isspace_blank] by simp
    have r: "py_strip ('' '' @ clean_amount b) = py_strip (clean_amount b)"
      using py_strip_leading_space [OF py_isspace_blank] by simp
    have "parse_amount_try (''$'' @ a @ '' - $'' @ b) = Inr (PFloat x, PFloat y)"
      using parse_amount_try_two_sided [OF dollar_range_clean n] h
      by (simp only: t l r option.case)
    then show "parse_amount_range (''$'' @ a @ '' - $'' @ b) = (PFloat x, PFloat y)"
      by (simp add: parse_amount_range_def)
  qed
  have 2: "CHR ''-'' \<notin> set s \<and> py_float (py_strip (clean_amount s)) = Some v \<longrightarrow>
      parse_amount_range s = (PFloat v, PFloat v)"
    by (simp add: parse_amount_range_def parse_amount_try_one_sided)
  have 3: "CHR ''-'' \<notin> set s \<and> py_float (py_strip (clean_amount s)) = None \<longrightarrow>
      parse_amount_range s = (PInt 0, PInt 0)"
    by (simp add: parse_amount_range_def parse_amount_try_one_sided)
  have 4: "clean_amount s = p0 @ CHR ''-'' # r \<and> CHR ''-'' \<notin> set p0 \<and>
    py_float (py_strip p0) = Some x \<and>
    py_float (py_strip (takeWhile (\<lambda>c. c \<noteq> CHR ''-'') r)) = Some y \<longrightarrow>
      parse_amount_range s = (PFloat x, PFloat y)"
    using parse_amount_try_two_sided [of s p0 r] by (simp add: parse_amount_range_def)
  have 5: "clean_amount s = p0 @ CHR ''-'' # r \<and> CHR ''-'' \<notin> set p0 \<and>
    (py_float (py_strip p0) = None \<or>
     py_float (py_strip (takeWhile (\<lambda>c. c \<noteq> CHR ''-'') r)) = None) \<longrightarrow>
      parse_amount_range s = (PInt 0, PInt 0)"
    using parse_amount_try_two_sided [of s p0 r]
    by (auto simp: parse_amount_range_def split: option.splits)
  have 6: "parse_amount_try s = Inl e \<longrightarrow> parse_amount_range s = (PInt 0, PInt 0)"
    by (simp add: parse_amount_range_def)
  show ?thesis by (intro conjI 1 2 3 4 5 6)
qed

lemmas eval_float = py_float_def parse_decimal_def parse_exponent_def split_sign_def scale10_def
  digits_val_def is_digit_def float_isspace_def code_point_def py_lower_def py_lower_char_def
  py_isupper_def py_isspace_def py_strip_def py_remove_def clean_amount_def Let_def

theorem parse_amount_range_cases_witness:
  "parse_amount_range ''$1,001 - $15,000'' = (PFloat (Finite 1001), PFloat (Finite 15000)) \<and>
   parse_amount_range ''$50,000'' = (PFloat (Finite 50000), PFloat (Finite 50000)) \<and>
   parse_amount_range ''N/A'' = (PInt 0, PInt 0) \<and>
   parse_amount_range ''$1,001 -'' = (PInt 0, PInt 0) \<and>
   parse_amount_range ''$1 - $2 - $3'' = (PFloat (Finite 1), PFloat (Finite 2))"
proof -
  have a: "py_float (py_strip (clean_amount ''1,001'')) = Some (Finite 1001)"
    by (simp add: eval_float)
  have b: "py_float (py_strip (clean_amount ''15,000'')) = Some (Finite 15000)"
    by (simp add: eval_float)
  have 1: "parse_amount_range ''$1,001 - $15,000''
      = (PFloat (Finite 1001), PFloat (Finite 15000))"
    using parse_amount_range_cases
      [where a = "''1,001''" and b = "''15,000''" and x = "Finite 1001" and y = "Finite 15000"]
      a b
    by simp
  have c: "py_float (py_strip (clean_amount ''$50,000'')) = Some (Finite 50000)"
    by (simp add: eval_float)
  have 2: "parse_amount_range ''$50,000'' = (PFloat (Finite 50000), PFloat (Finite 50000))"
    using parse_amount_range_cases [where s = "''$50,000''" and v = "Finite 50000"] c
    by simp
  have d: "py_float (py_strip (clean_amount ''N/A'')) = None"
    by (simp add: eval_float)
  have 3: "parse_amount_range ''N/A'' = (PInt 0, PInt 0)"
    using parse_amount_range_cases [where s = "''N/A''"] d by simp
  have e: "clean_amount ''$1,001 -'' = ''1001 '' @ CHR ''-'' # ''''"
    by (simp add: clean_amount_def py_remove_def)
  have f: "py_float (py_strip (takeWhile (\<lambda>c. c \<noteq> CHR ''-'') '''')) = None"
    by (simp add: eval_float)
  have 4: "parse_amount_range ''$1,001 -'' = (PInt 0, PInt 0)"
    using parse_amount_range_cases [where s = "''$1,001 -''" and ?p0.0 = "''1001 ''" and r = "''''"]
      e f
    by simp
  have g: "clean_amount ''$1 - $2 - $3'' = ''1 '' @ CHR ''-'' # '' 2 - 3''"
    by (simp add: clean_amount_def py_remove_def)
  have h: "py_float (py_strip ''1 '') = Some (Finite 1)" by (simp add: eval_float)
  have i: "py_float (py_strip (takeWhile (\<lambda>c. c \<noteq> CHR ''-'') '' 2 - 3'')) = Some (Finite 2)"
    by (simp add: eval_float)
  have 5: "parse_amount_range ''$1 - $2 - $3'' = (PFloat (Finite 1), PFloat (Finite 2))"
    using parse_amount_range_cases
      [where s = "''$1 - $2 - $3''" and ?p0.0 = "''1 ''" and r = "'' 2 - 3''"
         and x = "Finite 1" and y = "Finite 2"] g h i
    by simp
  show ?thesis using 1 2 3 4 5 by blast
qed

text \<open>
  C4 as stated fails: \<open>-5\<close> is a single-sided numeric string (\<open>float("-5")\<close> is \<open>-5.0\<close>),
  but its hyphen makes the parser split it into an empty piece and \<open>5\<close>, and the result is
  \<open>(0, 0)\<close>; and \<open>$1 - $2 - $3\<close>, which is neither of the form \<open>"$a - $b"\<close> with numeric
  \<open>b\<close> nor a number, parses to \<open>(1, 2)\<close> instead of \<open>(0, 0)\<close>.
\<close>

theorem parse_amount_range_counterexample:
  "py_float ''-5'' = Some (Finite (- 5)) \<and>
   parse_amount_range ''-5'' = (PInt 0, PInt 0) \<and>
   py_float ''2 - $3'' = None \<and> py_float ''$1 - $2 - $3'' = None \<and>
   parse_amount_range ''$1 - $2 - $3'' = (PFloat (Finite 1), PFloat (Finite 2))"
  by (simp add: eval_float parse_amount_range_def parse_amount_try_def py_split_on_def
        list_get_def to_float_def)
end
